theory Spec2Isabelle
  imports Complex_Main "HOL-Library.Sublist" "HOL-Library.Log_Nat"
begin

section \<open>Python strings and the library functions the backend calls\<close>

text \<open>
  A Python \<open>str\<close> is modelled as a \<open>string\<close>: one \<open>char\<close> per code point, for the
  code points 0..255. On this range the library functions used by the backend have a
  closed description, which the definitions below follow (CPython 3.11):
  \<^item> \<open>str.strip()\<close> removes the code points 9..13, 28..32, 133 and 160 at both ends;
  \<^item> \<open>str.lower()\<close> adds 32 to \<open>A..Z\<close> and to 192..222 except 215;
  \<^item> the regular expression \<open>\d\<close> matches exactly \<open>0..9\<close>.
\<close>

definition is_space :: "char \<Rightarrow> bool" where
  "is_space c =
     (let n = (of_char c :: nat)
      in (9 \<le> n \<and> n \<le> 13) \<or> (28 \<le> n \<and> n \<le> 32) \<or> n = 133 \<or> n = 160)"

definition py_strip :: "string \<Rightarrow> string" where
  "py_strip s = rev (dropWhile is_space (rev (dropWhile is_space s)))"

definition lower_char :: "char \<Rightarrow> char" where
  "lower_char c =
     (let n = (of_char c :: nat)
      in if (65 \<le> n \<and> n \<le> 90) \<or> (192 \<le> n \<and> n \<le> 222 \<and> n \<noteq> 215)
         then char_of (n + 32) else c)"

definition py_lower :: "string \<Rightarrow> string" where
  "py_lower s = map lower_char s"

definition is_digit :: "char \<Rightarrow> bool" where
  "is_digit c = (let n = (of_char c :: nat) in 48 \<le> n \<and> n \<le> 57)"

text \<open>\<open>s.isascii()\<close>.\<close>

definition is_ascii :: "string \<Rightarrow> bool" where
  "is_ascii s = list_all (\<lambda>c. (of_char c :: nat) < 128) s"

text \<open>\<open>s.replace(old, new)\<close> where \<open>old\<close> is a single character.\<close>

definition py_replace :: "char \<Rightarrow> string \<Rightarrow> string \<Rightarrow> string" where
  "py_replace old new s = concat (map (\<lambda>c. if c = old then new else [c]) s)"

text \<open>\<open>s.count(c)\<close> for a single character \<open>c\<close>.\<close>

definition py_count :: "char \<Rightarrow> string \<Rightarrow> int" where
  "py_count c s = int (length (filter (\<lambda>d. d = c) s))"

text \<open>\<open>p in s\<close>: \<open>p\<close> occurs in \<open>s\<close> as a contiguous substring.\<close>

fun starts_with :: "string \<Rightarrow> string \<Rightarrow> bool" where
  "starts_with [] s = True"
| "starts_with (p # ps) [] = False"
| "starts_with (p # ps) (c # cs) = (p = c \<and> starts_with ps cs)"

fun py_in :: "string \<Rightarrow> string \<Rightarrow> bool" where
  "py_in p [] = (p = [])"
| "py_in p (c # cs) = (starts_with p (c # cs) \<or> py_in p cs)"

text \<open>
  \<open>html.escape(s)\<close> with its default \<open>quote=True\<close>: five replacements in the library's
  order, the ampersand first.
\<close>

definition html_escape :: "string \<Rightarrow> string" where
  "html_escape s =
     (let s = py_replace (CHR ''&'') ''&amp;'' s;
          s = py_replace (CHR ''<'') ''&lt;'' s;
          s = py_replace (CHR ''>'') ''&gt;'' s;
          s = py_replace (CHR 0x22) ''&quot;'' s;
          s = py_replace (CHR 0x27) ''&#x27;'' s
      in s)"

subsection \<open>Values that reach the sanitizer\<close>

text \<open>
  The \<open>url\<close> field of a JSON request holds any JSON value. The model has the scalar
  ones whose \<open>str()\<close> is a plain rendering: \<open>None\<close>, booleans, integers and strings.
\<close>

datatype pyval = PyNone | PyBool bool | PyInt int | PyStr string

fun str_nat :: "nat \<Rightarrow> string" where
  "str_nat n =
     (if n < 10 then [char_of (48 + n)]
      else str_nat (n div 10) @ [char_of (48 + n mod 10)])"

declare str_nat.simps [simp del]

definition str_int :: "int \<Rightarrow> string" where
  "str_int i = (if i < 0 then CHR ''-'' # str_nat (nat (- i)) else str_nat (nat i))"

fun py_str :: "pyval \<Rightarrow> string" where
  "py_str PyNone = ''None''"
| "py_str (PyBool b) = (if b then ''True'' else ''False'')"
| "py_str (PyInt i) = str_int i"
| "py_str (PyStr s) = s"

section \<open>security_utils.py\<close>

subsection \<open>sanitize_input\<close>

definition sanitize_input :: "pyval \<Rightarrow> string" where
  "sanitize_input user_input =
     (case user_input of
        PyStr s \<Rightarrow>
          (let sanitized = py_replace (CHR 0x00) [] s;
               sanitized = html_escape sanitized;
               max_length = 2048;
               sanitized = (if length sanitized > max_length
                            then take max_length sanitized else sanitized)
           in py_strip sanitized)
      | _ \<Rightarrow> py_str user_input)"


section \<open>urllib.parse.urlparse\<close>

text \<open>
  Exceptions are values. Both exceptions that can occur in the modelled code carry the
  message that \<open>str(e)\<close> returns.
\<close>

datatype exn = ValueError string | IndexError string

fun exn_str :: "exn \<Rightarrow> string" where
  "exn_str (ValueError msg) = msg"
| "exn_str (IndexError msg) = msg"

text \<open>
  The backend reads two fields of the result of \<open>urlparse\<close>, the scheme and the
  network location, so the model of the result has these two. (\<open>extract_features\<close>
  also binds \<open>parsed.path\<close> to a variable that it never reads.) They are computed as
  \<open>urlsplit\<close> of CPython 3.11.4 and later computes them (the versions that validate
  a host in brackets); the later splitting of query, fragment and parameters changes
  neither.

  A host in square brackets is validated with \<open>ipaddress.ip_address\<close>. That function
  is a parameter of the model: it returns the kind of address, or the message of the
  \<open>ValueError\<close> it raises.

  The last check of \<open>urlsplit\<close>, \<open>_checknetloc\<close>, returns at once on an ASCII network
  location. On another one it raises if NFKC normalisation yields one of
  \<open>/ ? # @ :\<close>; no code point below 256 normalises to a string with one of them, so
  on the modelled strings the check returns and is left out. A URL with a code point
  from 256 on is outside the model, and the check can raise there: no statement
  below says that \<open>urlparse\<close> returns on a URL that is not ASCII.
\<close>

record parse_result =
  scheme :: string
  netloc :: string

datatype ip_kind = IPv4Address | IPv6Address

type_synonym ip_address_fn = "string \<Rightarrow> string + ip_kind"

definition c0_control_or_space :: "char \<Rightarrow> bool" where
  "c0_control_or_space c = ((of_char c :: nat) \<le> 32)"

definition unsafe_url_bytes :: "string" where
  "unsafe_url_bytes = [CHR 0x09, CHR 0x0D, CHR 0x0A]"

definition scheme_chars :: "string" where
  "scheme_chars =
     ''abcdefghijklmnopqrstuvwxyz'' @ ''ABCDEFGHIJKLMNOPQRSTUVWXYZ'' @ ''0123456789'' @ ''+-.''"

definition is_ascii_alpha :: "char \<Rightarrow> bool" where
  "is_ascii_alpha c =
     (let n = (of_char c :: nat) in (65 \<le> n \<and> n \<le> 90) \<or> (97 \<le> n \<and> n \<le> 122))"

text \<open>\<open>s.find(c, start)\<close>: the index of the first \<open>c\<close> at or after \<open>start\<close>, or -1.\<close>

definition py_find :: "char \<Rightarrow> string \<Rightarrow> nat \<Rightarrow> int" where
  "py_find c s start =
     (if c \<in> set (drop start s)
      then int start + int (length (takeWhile (\<lambda>d. d \<noteq> c) (drop start s)))
      else - 1)"

definition splitnetloc :: "string \<Rightarrow> nat \<Rightarrow> string \<times> string" where
  "splitnetloc url start =
     (let delim = foldl (\<lambda>delim c.
                     let wdelim = py_find c url start
                     in if wdelim \<ge> 0 then min delim wdelim else delim)
                   (int (length url)) ''/?#''
      in (take (nat delim - start) (drop start url), drop (nat delim) url))"

definition is_hex :: "char \<Rightarrow> bool" where
  "is_hex c = (c \<in> set ''abcdefABCDEF0123456789'')"

text \<open>The match of \<open>\Av[a-fA-F0-9]+\..+\Z\<close> against a host name.\<close>

definition ipvfuture_match :: "string \<Rightarrow> bool" where
  "ipvfuture_match hostname =
     (case hostname of
        [] \<Rightarrow> False
      | c # rest \<Rightarrow>
          c = CHR ''v'' \<and> takeWhile is_hex rest \<noteq> [] \<and>
          (case dropWhile is_hex rest of
             [] \<Rightarrow> False
           | d # tail \<Rightarrow> d = CHR ''.'' \<and> tail \<noteq> [] \<and> CHR 0x0A \<notin> set tail))"

definition check_bracketed_host :: "ip_address_fn \<Rightarrow> string \<Rightarrow> exn option" where
  "check_bracketed_host ip_address hostname =
     (if starts_with ''v'' hostname then
        (if \<not> ipvfuture_match hostname
         then Some (ValueError ''IPvFuture address is invalid'') else None)
      else
        (case ip_address hostname of
           Inl msg \<Rightarrow> Some (ValueError msg)
         | Inr IPv4Address \<Rightarrow> Some (ValueError ''An IPv4 address cannot be in brackets'')
         | Inr IPv6Address \<Rightarrow> None))"

definition split_scheme :: "string \<Rightarrow> string \<times> string" where
  "split_scheme url =
     (let i = py_find (CHR '':'') url 0
      in if i > 0 \<and> is_ascii_alpha (hd url) \<and>
            list_all (\<lambda>c. c \<in> set scheme_chars) (take (nat i) url)
         then (py_lower (take (nat i) url), drop (nat i + 1) url)
         else ([], url))"

definition urlparse :: "ip_address_fn \<Rightarrow> string \<Rightarrow> exn + parse_result" where
  "urlparse ip_address url0 =
     (let url = dropWhile c0_control_or_space url0;
          url = filter (\<lambda>c. c \<notin> set unsafe_url_bytes) url;
          (scheme, url) = split_scheme url
      in if take 2 url = ''//'' then
           (let (netloc, url) = splitnetloc url 2;
                lb = CHR ''['' \<in> set netloc;
                rb = CHR '']'' \<in> set netloc
            in if (lb \<and> \<not> rb) \<or> (rb \<and> \<not> lb) then Inl (ValueError ''Invalid IPv6 URL'')
               else if lb \<and> rb then
                 (let bracketed_host =
                        takeWhile (\<lambda>c. c \<noteq> CHR '']'')
                          (drop 1 (dropWhile (\<lambda>c. c \<noteq> CHR ''['') netloc))
                  in case check_bracketed_host ip_address bracketed_host of
                       Some e \<Rightarrow> Inl e
                     | None \<Rightarrow> Inr \<lparr>scheme = scheme, netloc = netloc\<rparr>)
               else Inr \<lparr>scheme = scheme, netloc = netloc\<rparr>)
         else Inr \<lparr>scheme = scheme, netloc = []\<rparr>)"

subsection \<open>validate_url\<close>

definition malicious_patterns :: "string list" where
  "malicious_patterns =
     [''javascript:'', ''data:'', ''vbscript:'', ''file:'',
      ''<script'', ''</script>'', ''<iframe'', ''</iframe>'',
      ''eval'' @ [CHR 0x5C] @ ''('', ''alert'' @ [CHR 0x5C] @ ''('']"

text \<open>
  \<open>re.search(pattern, s)\<close> for the patterns above: their only regular-expression
  syntax is the backslash that quotes the next character, so a pattern matches where
  the quoted text occurs.
\<close>

fun re_unescape :: "string \<Rightarrow> string" where
  "re_unescape [] = []"
| "re_unescape [c] = [c]"
| "re_unescape (c # d # ds) =
     (if c = CHR 0x5C then d # re_unescape ds else c # re_unescape (d # ds))"

definition re_search :: "string \<Rightarrow> string \<Rightarrow> bool" where
  "re_search pattern s = py_in (re_unescape pattern) s"

text \<open>The loop over the patterns: the first pattern found in the URL, if any.\<close>

fun first_malicious :: "string \<Rightarrow> string list \<Rightarrow> string option" where
  "first_malicious url_lower [] = None"
| "first_malicious url_lower (pattern # rest) =
     (if re_search pattern url_lower then Some pattern
      else first_malicious url_lower rest)"

text \<open>
  The body of the \<open>try\<close> block: an exception of \<open>urlparse\<close>, a \<open>return\<close>, or
  falling through to the statement after the block.
\<close>

definition format_checks :: "ip_address_fn \<Rightarrow> string \<Rightarrow> exn + (bool \<times> string) option" where
  "format_checks ip_address url =
     (case urlparse ip_address url of
        Inl e \<Rightarrow> Inl e
      | Inr parsed \<Rightarrow>
          if scheme parsed = [] \<or> netloc parsed = []
          then Inr (Some (False, ''Invalid URL format''))
          else if scheme parsed \<notin> set [''http'', ''https'']
          then Inr (Some (False, ''Only HTTP and HTTPS URLs are supported''))
          else Inr None)"

definition validate_url :: "ip_address_fn \<Rightarrow> string \<Rightarrow> exn + bool \<times> string" where
  "validate_url ip_address url =
     (if url = [] then Inr (False, ''URL cannot be empty'')
      else if length url > 2048 then Inr (False, ''URL too long (max 2048 characters)'')
      else
        (case first_malicious (py_lower url) malicious_patterns of
           Some pattern \<Rightarrow>
             Inr (False, ''URL contains potentially malicious content: '' @ pattern)
         | None \<Rightarrow>
             (case format_checks ip_address url of
                Inl e \<Rightarrow> Inr (False, ''URL parsing error: '' @ exn_str e)
              | Inr (Some result) \<Rightarrow> Inr result
              | Inr None \<Rightarrow> Inr (True, []))))"

subsection \<open>validate_api_request\<close>

text \<open>The request body: a JSON object with string keys, or any other JSON value.\<close>

datatype request_data = NotADict | Dict "string \<rightharpoonup> pyval"

definition validate_api_request ::
  "ip_address_fn \<Rightarrow> request_data \<Rightarrow> exn + bool \<times> string \<times> (string \<rightharpoonup> string)" where
  "validate_api_request ip_address request_data =
     (case request_data of
        NotADict \<Rightarrow> Inr (False, ''Request data must be a JSON object'', Map.empty)
      | Dict d \<Rightarrow>
          (case d ''url'' of
             None \<Rightarrow> Inr (False, ''Missing required field: url'', Map.empty)
           | Some url \<Rightarrow>
               (let sanitized_url = sanitize_input url
                in case validate_url ip_address sanitized_url of
                     Inl e \<Rightarrow> Inl e
                   | Inr (is_valid, error_msg) \<Rightarrow>
                       if \<not> is_valid then Inr (False, error_msg, Map.empty)
                       else Inr (True, [], [''url'' \<mapsto> sanitized_url]))))"


section \<open>feature_extraction.py\<close>

text \<open>
  \<open>re.search(r'\d{1,3}\.\d{1,3}\.\d{1,3}\.\d{1,3}', domain)\<close>. \<open>after_digits s\<close>
  lists what can remain of \<open>s\<close> after \<open>\d{1,3}\<close> has matched at its start (the longest
  match first, as the matcher tries them), \<open>after_dot s\<close> what remains after \<open>\.\<close>.
\<close>

definition after_digits :: "string \<Rightarrow> string list" where
  "after_digits s =
     map (\<lambda>k. drop k s) (filter (\<lambda>k. k \<le> length s \<and> list_all is_digit (take k s)) [3, 2, 1])"

definition after_dot :: "string \<Rightarrow> string list" where
  "after_dot s = (case s of [] \<Rightarrow> [] | c # r \<Rightarrow> if c = CHR ''.'' then [r] else [])"

definition ip_match_here :: "string \<Rightarrow> bool" where
  "ip_match_here s =
     (let r = after_digits s;
          r = concat (map after_dot r);
          r = concat (map after_digits r);
          r = concat (map after_dot r);
          r = concat (map after_digits r);
          r = concat (map after_dot r);
          r = concat (map after_digits r)
      in r \<noteq> [])"

fun ip_search :: "string \<Rightarrow> bool" where
  "ip_search [] = ip_match_here []"
| "ip_search (c # cs) = (ip_match_here (c # cs) \<or> ip_search cs)"

definition brands :: "string list" where
  "brands = [''google'', ''facebook'', ''paypal'', ''amazon'', ''netflix'', ''microsoft'', ''apple'']"

definition typo_patterns :: "string \<Rightarrow> string list" where
  "typo_patterns brand =
     [py_replace (CHR ''o'') ''0'' brand,
      py_replace (CHR ''l'') ''1'' brand,
      py_replace (CHR ''i'') ''1'' brand,
      py_replace (CHR ''e'') ''3'' brand,
      brand @ ''-login'',
      brand @ ''-verify'',
      brand @ ''-secure'',
      ''secure-'' @ brand]"

text \<open>
  The inner loop over the patterns of one brand, and the outer loop over the brands.
  Each returns the value of \<open>has_brand_typo\<close> when the loop is left; the variable is 0
  whenever an iteration of the outer loop starts, since a 1 leaves both loops.
\<close>

fun scan_patterns :: "string \<Rightarrow> string \<Rightarrow> string list \<Rightarrow> int" where
  "scan_patterns domain_lower brand [] = 0"
| "scan_patterns domain_lower brand (pattern # rest) =
     (if py_in pattern domain_lower \<and> \<not> py_in brand domain_lower then 1
      else scan_patterns domain_lower brand rest)"

fun scan_brands :: "string \<Rightarrow> string list \<Rightarrow> int" where
  "scan_brands domain_lower [] = 0"
| "scan_brands domain_lower (brand # rest) =
     (let has_brand_typo = scan_patterns domain_lower brand (typo_patterns brand)
      in if has_brand_typo \<noteq> 0 then has_brand_typo
         else scan_brands domain_lower rest)"

text \<open>Feature 7 as a function of the network location.\<close>

definition brand_typo :: "string \<Rightarrow> int" where
  "brand_typo domain = scan_brands (py_lower domain) brands"

definition extract_features :: "ip_address_fn \<Rightarrow> string \<Rightarrow> exn + int list" where
  "extract_features ip_address url =
     (case urlparse ip_address url of
        Inl e \<Rightarrow> Inl e
      | Inr parsed \<Rightarrow>
          (let domain = netloc parsed;
               url_length = int (length url);
               has_ip = (if ip_search domain then 1 else 0);
               has_at = (if CHR ''@'' \<in> set url then 1 else 0);
               num_digits = int (length (filter is_digit url));
               has_https = (if scheme parsed = ''https'' then 1 else 0);
               num_subdomains = (if domain \<noteq> [] then py_count (CHR ''.'') domain - 1 else 0);
               has_brand_typo = brand_typo domain
           in Inr [url_length, has_ip, has_at, num_digits, has_https,
                   num_subdomains, has_brand_typo]))"

section \<open>train_model.py\<close>

text \<open>
  \<open>extract_features_from_urls\<close>: the training script calls the extractor inside
  \<open>try\<close>/\<open>except Exception\<close> and puts \<open>[0] * 7\<close> in the place of a vector whose
  extraction raised.
\<close>

definition extract_features_from_urls :: "ip_address_fn \<Rightarrow> string list \<Rightarrow> int list list" where
  "extract_features_from_urls ip_address urls =
     map (\<lambda>url. case extract_features ip_address url of
                   Inr features \<Rightarrow> features
                 | Inl e \<Rightarrow> replicate 7 0) urls"

section \<open>app.py\<close>

text \<open>
  The response texts of \<open>get_reasons\<close> start with a pictograph beyond code point 255,
  so a reason is a list of code points; \<open>ascii\<close> gives the code points of its plain part.
\<close>

type_synonym ustr = "nat list"

definition ascii :: "string \<Rightarrow> ustr" where
  "ascii s = map of_char s"

text \<open>
  Both functions read \<open>features[0]\<close> to \<open>features[6]\<close> before anything else; a
  shorter list raises \<open>IndexError\<close> at the first index it lacks.
\<close>

definition features7 ::
  "int list \<Rightarrow> exn + int \<times> int \<times> int \<times> int \<times> int \<times> int \<times> int" where
  "features7 features =
     (if length features < 7 then Inl (IndexError ''list index out of range'')
      else Inr (features ! 0, features ! 1, features ! 2, features ! 3,
                features ! 4, features ! 5, features ! 6))"

definition calculate_mock_score :: "int list \<Rightarrow> exn + int" where
  "calculate_mock_score features =
     (case features7 features of
        Inl e \<Rightarrow> Inl e
      | Inr (url_length, has_ip, has_at, num_digits, has_https, num_subdomains, has_brand_typo) \<Rightarrow>
          (let score = 0;
               score = (if url_length > 75 then score + 25 else score);
               score = (if has_ip = 1 then score + 30 else score);
               score = (if has_at = 1 then score + 20 else score);
               score = (if has_https = 0 then score + 15 else score);
               score = (if has_brand_typo = 1 then score + 35 else score);
               score = (if num_subdomains > 3 then score + 10 else score)
           in Inr (min score 100)))"

definition reason_long_url :: ustr where
  "reason_long_url = [0x1F517, 0x20] @ ascii ''Unusually long URL detected (potential obfuscation)''"

definition reason_ip :: ustr where
  "reason_ip = [0x1F310, 0x20] @ ascii ''URL contains IP address instead of domain name''"

definition reason_at :: ustr where
  "reason_at = [0x26A0, 0xFE0F, 0x20] @ ascii ''URL contains @ symbol (potential redirect)''"

definition reason_no_https :: ustr where
  "reason_no_https = [0x1F512, 0x20] @ ascii ''Not using secure HTTPS protocol''"

definition reason_brand :: ustr where
  "reason_brand = [0x1F3AD, 0x20] @ ascii ''Possible brand impersonation detected''"

definition reason_subdomains :: ustr where
  "reason_subdomains = [0x1F4E1, 0x20] @ ascii ''Excessive number of subdomains''"

definition reason_digits :: ustr where
  "reason_digits = [0x1F522, 0x20] @ ascii ''High number of digits in URL (suspicious pattern)''"

definition reason_standard :: ustr where
  "reason_standard = [0x2705, 0x20] @ ascii ''URL appears to follow standard patterns''"

definition get_reasons :: "int list \<Rightarrow> exn + ustr list" where
  "get_reasons features =
     (case features7 features of
        Inl e \<Rightarrow> Inl e
      | Inr (url_length, has_ip, has_at, num_digits, has_https, num_subdomains, has_brand_typo) \<Rightarrow>
          (let reasons = [];
               reasons = (if url_length > 75 then reasons @ [reason_long_url] else reasons);
               reasons = (if has_ip = 1 then reasons @ [reason_ip] else reasons);
               reasons = (if has_at = 1 then reasons @ [reason_at] else reasons);
               reasons = (if has_https = 0 then reasons @ [reason_no_https] else reasons);
               reasons = (if has_brand_typo = 1 then reasons @ [reason_brand] else reasons);
               reasons = (if num_subdomains > 3 then reasons @ [reason_subdomains] else reasons);
               reasons = (if num_digits > 10 then reasons @ [reason_digits] else reasons);
               reasons = (if reasons = [] then reasons @ [reason_standard] else reasons)
           in Inr reasons))"

subsection \<open>The classifier and predict\<close>

text \<open>
  The loaded model is used through \<open>predict\<close> and \<open>predict_proba\<close>. Its
  probabilities are \<open>numpy.float64\<close> values, IEEE 754 doubles. A double is modelled
  as the rational number it is equal to, and every operation on doubles rounds its exact
  result to the nearest double, at a tie to the one with the even significand:
  \<open>fl\<close> is that rounding, for a significand of 53 bits, with the subnormal spacing
  \<open>2^-1074\<close> below \<open>2^-1022\<close>. (Overflow to infinity is not modelled; the values in
  \<open>predict\<close> are products of a probability with 100 or 1000.) \<open>int(x)\<close> drops the
  fraction (towards zero); \<open>round(x)\<close> takes the nearest integer and, at a tie, the
  even one.
\<close>

record classifier =
  clf_predict :: "int list \<Rightarrow> int"
  clf_predict_proba :: "int list \<Rightarrow> rat \<times> rat"

definition py_int :: "rat \<Rightarrow> int" where
  "py_int x = (if x < 0 then - \<lfloor>- x\<rfloor> else \<lfloor>x\<rfloor>)"

definition py_round :: "rat \<Rightarrow> int" where
  "py_round x =
     (let f = \<lfloor>x\<rfloor>; d = x - of_int f
      in if d < 1 / 2 then f else if d > 1 / 2 then f + 1
         else if even f then f else f + 1)"

text \<open>The exponent of a positive number: the \<open>e\<close> with \<open>2^e \<le> x < 2^(e+1)\<close>.\<close>

definition ilog2 :: "rat \<Rightarrow> int" where
  "ilog2 x =
     (let (p, q) = quotient_of x;
          d = bitlen p - bitlen q
      in if power_int 2 d \<le> x then d else d - 1)"

definition fl :: "rat \<Rightarrow> rat" where
  "fl x =
     (if x = 0 then 0
      else (let e = max (ilog2 \<bar>x\<bar>) (- 1022);
                ulp = power_int 2 (e - 52)
            in of_int (py_round (x / ulp)) * ulp))"

definition fmul :: "rat \<Rightarrow> rat \<Rightarrow> rat" where
  "fmul x y = fl (x * y)"

definition fsub :: "rat \<Rightarrow> rat \<Rightarrow> rat" where
  "fsub x y = fl (x - y)"

definition fdiv :: "rat \<Rightarrow> rat \<Rightarrow> rat" where
  "fdiv x y = fl (x / y)"

text \<open>
  \<open>round(x, 3)\<close> on a \<open>numpy.float64\<close>: numpy multiplies by 1000, rounds to an
  integer and divides by 1000, each in double arithmetic.
\<close>

definition np_round3 :: "rat \<Rightarrow> rat" where
  "np_round3 x = fdiv (of_int (py_round (fmul x 1000))) 1000"

text \<open>
  \<open>round(x, 3)\<close> on the Python float of the fallback branch, the literal \<open>0.8\<close>:
  Python rounds the value correctly to three decimals. The literal and the result are
  written as the decimal numbers that they print as.
\<close>

definition py_round3 :: "rat \<Rightarrow> rat" where
  "py_round3 x = of_int (py_round (x * 1000)) / 1000"

record prediction =
  p_url :: string
  p_prediction :: string
  p_confidence :: rat
  p_phishing_score :: int
  p_features :: "(string \<times> int) list"
  p_reasons :: "ustr list"
  p_model_used :: string

text \<open>The two branches that compute status, confidence and phishing score.\<close>

definition model_branch :: "classifier \<Rightarrow> int list \<Rightarrow> string \<times> rat \<times> int" where
  "model_branch model features =
     (let prediction = clf_predict model features;
          probability = clf_predict_proba model features
      in if prediction = 1
         then (let status = ''Phishing'';
                   confidence = snd probability;
                   phishing_score = py_int (fmul confidence 100)
               in (status, confidence, phishing_score))
         else (let status = ''Safe'';
                   confidence = fst probability;
                   phishing_score = py_int (fmul (fsub 1 confidence) 100)
               in (status, confidence, phishing_score)))"

definition mock_branch :: "int list \<Rightarrow> exn + string \<times> rat \<times> int" where
  "mock_branch features =
     (case calculate_mock_score features of
        Inl e \<Rightarrow> Inl e
      | Inr phishing_score \<Rightarrow>
          (let confidence = 8 / 10;
               status = (if phishing_score \<ge> 70 then ''Phishing'' else ''Safe'')
           in Inr (status, confidence, phishing_score)))"

definition feature_names :: "string list" where
  "feature_names =
     [''url_length'', ''has_ip'', ''has_at'', ''num_digits'',
      ''has_https'', ''num_subdomains'', ''has_brand_typo'']"

text \<open>
  The body of the \<open>try\<close> block of \<open>predict\<close> after the check for an empty URL; the
  time stamp of the response is left out. \<open>round(confidence, 3)\<close> is numpy's on the
  probability of a classifier and Python's on the literal of the fallback branch.
\<close>

definition predict_body ::
  "ip_address_fn \<Rightarrow> classifier option \<Rightarrow> string \<Rightarrow> exn + prediction" where
  "predict_body ip_address model url =
     (case extract_features ip_address url of
        Inl e \<Rightarrow> Inl e
      | Inr features \<Rightarrow>
          (case (case model of
                   Some m \<Rightarrow> Inr (model_branch m features)
                 | None \<Rightarrow> mock_branch features) of
             Inl e \<Rightarrow> Inl e
           | Inr (status, confidence, phishing_score) \<Rightarrow>
               (case get_reasons features of
                  Inl e \<Rightarrow> Inl e
                | Inr reasons \<Rightarrow>
                    Inr \<lparr>p_url = url,
                         p_prediction = status,
                         p_confidence = (case model of
                                           Some m \<Rightarrow> np_round3 confidence
                                         | None \<Rightarrow> py_round3 confidence),
                         p_phishing_score = phishing_score,
                         p_features = zip feature_names features,
                         p_reasons = reasons,
                         p_model_used = (if model \<noteq> None then ''Random Forest'' else ''Mock'')\<rparr>)))"

datatype response = Ok prediction | Failed nat string

definition predict :: "ip_address_fn \<Rightarrow> classifier option \<Rightarrow> string \<Rightarrow> response" where
  "predict ip_address model url =
     (if url = [] then Failed 400 ''URL is required''
      else case predict_body ip_address model url of
             Inl e \<Rightarrow> Failed 500 (''Prediction failed: '' @ exn_str e)
           | Inr r \<Rightarrow> Ok r)"


section \<open>The specification's formulas\<close>

text \<open>
  The weighted sum of the heuristic scorer and the score of the model scorer, written
  as the specification words them; the theorems below compare the code with them.
\<close>

definition spec_heuristic_score :: "int \<Rightarrow> int \<Rightarrow> int \<Rightarrow> int \<Rightarrow> int \<Rightarrow> int \<Rightarrow> int" where
  "spec_heuristic_score url_length has_ip has_at has_https has_brand_typo num_subdomains =
     max 0 (min 100
       ((if url_length > 75 then 25 else 0) + (if has_ip = 1 then 30 else 0) +
        (if has_at = 1 then 20 else 0) + (if has_https = 0 then 15 else 0) +
        (if has_brand_typo = 1 then 35 else 0) + (if num_subdomains > 3 then 10 else 0)))"

definition spec_model_score :: "rat \<Rightarrow> int" where
  "spec_model_score confidence = py_round (confidence * 100)"

section \<open>The sanitizer\<close>

lemma set_py_replace_subset: "set (py_replace c new s) \<subseteq> set s \<union> set new"
  by (auto simp: py_replace_def split: if_splits)

lemma py_replace_removes: "c \<notin> set new \<Longrightarrow> c \<notin> set (py_replace c new s)"
  by (auto simp: py_replace_def split: if_splits)

lemma py_replace_keeps_out:
  "d \<notin> set s \<Longrightarrow> d \<notin> set new \<Longrightarrow> d \<notin> set (py_replace c new s)"
  using set_py_replace_subset [of c new s] by auto

lemma py_replace_absent: "c \<notin> set s \<Longrightarrow> py_replace c new s = s"
  by (induction s) (auto simp: py_replace_def)

lemma html_escape_keeps_out:
  "d \<notin> set s \<Longrightarrow> d \<notin> set ''&amp;lt;gt;quot;#x27;'' \<Longrightarrow> d \<notin> set (html_escape s)"
  unfolding html_escape_def Let_def
  by (intro py_replace_keeps_out) auto

lemma html_escape_no_reserved:
  "set (html_escape s) \<inter> {CHR ''<'', CHR ''>'', CHR 0x22, CHR 0x27} = {}"
proof -
  let ?a = "py_replace (CHR ''&'') ''&amp;'' s"
  let ?b = "py_replace (CHR ''<'') ''&lt;'' ?a"
  let ?c = "py_replace (CHR ''>'') ''&gt;'' ?b"
  let ?d = "py_replace (CHR 0x22) ''&quot;'' ?c"
  let ?e = "py_replace (CHR 0x27) ''&#x27;'' ?d"
  have lt_b: "CHR ''<'' \<notin> set ?b" by (rule py_replace_removes) simp
  have lt_c: "CHR ''<'' \<notin> set ?c" by (rule py_replace_keeps_out [OF lt_b]) simp
  have gt_c: "CHR ''>'' \<notin> set ?c" by (rule py_replace_removes) simp
  have lt_d: "CHR ''<'' \<notin> set ?d" by (rule py_replace_keeps_out [OF lt_c]) simp
  have gt_d: "CHR ''>'' \<notin> set ?d" by (rule py_replace_keeps_out [OF gt_c]) simp
  have dq_d: "CHR 0x22 \<notin> set ?d" by (rule py_replace_removes) simp
  have lt_e: "CHR ''<'' \<notin> set ?e" by (rule py_replace_keeps_out [OF lt_d]) simp
  have gt_e: "CHR ''>'' \<notin> set ?e" by (rule py_replace_keeps_out [OF gt_d]) simp
  have dq_e: "CHR 0x22 \<notin> set ?e" by (rule py_replace_keeps_out [OF dq_d]) simp
  have sq_e: "CHR 0x27 \<notin> set ?e" by (rule py_replace_removes) simp
  have "html_escape s = ?e" by (simp add: html_escape_def)
  with lt_e gt_e dq_e sq_e show ?thesis by simp
qed

lemma html_escape_plain:
  "set s \<inter> {CHR ''&'', CHR ''<'', CHR ''>'', CHR 0x22, CHR 0x27} = {} \<Longrightarrow> html_escape s = s"
  by (simp add: html_escape_def py_replace_absent)

lemma set_py_strip: "set (py_strip s) \<subseteq> set s"
proof -
  have "set (py_strip s) \<subseteq> set (dropWhile is_space s)"
    unfolding py_strip_def using set_dropWhileD [of _ is_space "rev (dropWhile is_space s)"] by auto
  also have "\<dots> \<subseteq> set s" using set_dropWhileD [of _ is_space s] by auto
  finally show ?thesis .
qed

lemma length_py_strip: "length (py_strip s) \<le> length s"
proof -
  have "length (py_strip s) \<le> length (dropWhile is_space s)"
    unfolding py_strip_def
    using length_dropWhile_le [of is_space "rev (dropWhile is_space s)"] by simp
  also have "\<dots> \<le> length s" by (rule length_dropWhile_le)
  finally show ?thesis .
qed

lemma dropWhile_fixed: "xs = [] \<or> \<not> P (hd xs) \<Longrightarrow> dropWhile P xs = xs"
  by (cases xs) auto

lemma py_strip_ends:
  assumes "py_strip s \<noteq> []"
  shows "\<not> is_space (hd (py_strip s))" and "\<not> is_space (last (py_strip s))"
proof -
  let ?u = "dropWhile is_space s"
  let ?v = "dropWhile is_space (rev ?u)"
  have t: "py_strip s = rev ?v" by (simp add: py_strip_def)
  from assms t have v: "?v \<noteq> []" by simp
  then have "\<not> is_space (hd ?v)" by (rule hd_dropWhile)
  with v show "\<not> is_space (last (py_strip s))" by (simp add: t last_rev)
  have "rev ?u = takeWhile is_space (rev ?u) @ ?v" by simp
  then have "?u = rev ?v @ rev (takeWhile is_space (rev ?u))"
    by (metis rev_append rev_rev_ident)
  then have u: "?u = py_strip s @ rev (takeWhile is_space (rev ?u))" by (simp add: t)
  with assms have "hd ?u = hd (py_strip s)" by (metis hd_append2)
  moreover from u assms have "?u \<noteq> []" by (metis append_is_Nil_conv)
  then have "\<not> is_space (hd ?u)" by (rule hd_dropWhile)
  ultimately show "\<not> is_space (hd (py_strip s))" by simp
qed

lemma py_strip_idem: "py_strip (py_strip s) = py_strip s"
proof (cases "py_strip s = []")
  case True
  have "py_strip [] = []" by (simp add: py_strip_def)
  with True show ?thesis by simp
next
  case False
  let ?t = "py_strip s"
  from py_strip_ends [OF False] have h: "\<not> is_space (hd ?t)" and l: "\<not> is_space (last ?t)" .
  have 1: "dropWhile is_space ?t = ?t" using h by (intro dropWhile_fixed) simp
  have "hd (rev ?t) = last ?t" using False by (simp add: hd_rev)
  then have 2: "dropWhile is_space (rev ?t) = rev ?t" using l by (intro dropWhile_fixed) simp
  have "py_strip ?t = rev (dropWhile is_space (rev (dropWhile is_space ?t)))"
    by (simp add: py_strip_def [of ?t])
  then show ?thesis by (simp add: 1 2)
qed

lemma sanitize_str:
  "sanitize_input (PyStr s) = py_strip (take 2048 (html_escape (py_replace (CHR 0x00) [] s)))"
  by (simp add: sanitize_input_def Let_def)

lemma sanitize_length: "length (sanitize_input (PyStr s)) \<le> 2048"
  unfolding sanitize_str
  using length_py_strip [of "take 2048 (html_escape (py_replace (CHR 0x00) [] s))"] by simp

lemma sanitize_no_null: "CHR 0x00 \<notin> set (sanitize_input (PyStr s))"
proof -
  have "CHR 0x00 \<notin> set (py_replace (CHR 0x00) [] s)" by (rule py_replace_removes) simp
  then have "CHR 0x00 \<notin> set (html_escape (py_replace (CHR 0x00) [] s))"
    by (rule html_escape_keeps_out) simp
  then have "CHR 0x00 \<notin> set (take 2048 (html_escape (py_replace (CHR 0x00) [] s)))"
    by (meson in_set_takeD)
  then show ?thesis unfolding sanitize_str using set_py_strip by blast
qed

lemma sanitize_no_reserved:
  "set (sanitize_input (PyStr s)) \<inter> {CHR ''<'', CHR ''>'', CHR 0x22, CHR 0x27} = {}"
proof -
  let ?e = "html_escape (py_replace (CHR 0x00) [] s)"
  have "set (sanitize_input (PyStr s)) \<subseteq> set (take 2048 ?e)"
    unfolding sanitize_str by (rule set_py_strip)
  also have "\<dots> \<subseteq> set ?e" by (rule set_take_subset)
  finally show ?thesis using html_escape_no_reserved [of "py_replace (CHR 0x00) [] s"] by blast
qed

lemma sanitize_idem_if_no_amp:
  assumes "CHR ''&'' \<notin> set (sanitize_input (PyStr x))"
  shows "sanitize_input (PyStr (sanitize_input (PyStr x))) = sanitize_input (PyStr x)"
proof -
  let ?t = "sanitize_input (PyStr x)"
  have n: "py_replace (CHR 0x00) [] ?t = ?t"
    by (rule py_replace_absent) (rule sanitize_no_null)
  have e: "html_escape ?t = ?t"
    using assms sanitize_no_reserved [of x] by (intro html_escape_plain) auto
  have k: "take 2048 ?t = ?t" using sanitize_length [of x] by simp
  have "py_strip ?t = ?t" unfolding sanitize_str by (rule py_strip_idem)
  then show ?thesis by (simp add: sanitize_str [of ?t] n e k)
qed

lemma str_nat_long: "10 ^ k \<le> n \<Longrightarrow> k < length (str_nat n)"
proof (induction k arbitrary: n)
  case 0
  then show ?case by (subst str_nat.simps) simp
next
  case (Suc k)
  then have "10 ^ k \<le> n div 10" by simp
  then have "k < length (str_nat (n div 10))" by (rule Suc.IH)
  moreover have "(1::nat) \<le> 10 ^ k" by simp
  then have "(10::nat) \<le> 10 ^ Suc k" by simp
  with Suc.prems have "\<not> n < 10" by linarith
  ultimately show ?case by (subst str_nat.simps) simp
qed


lemma sanitize_int_long: "k < length (sanitize_input (PyInt (10 ^ k)))"
proof -
  have "sanitize_input (PyInt (10 ^ k)) = str_nat (10 ^ k)"
    by (simp add: sanitize_input_def str_int_def nat_power_eq)
  moreover have "k < length (str_nat (10 ^ k))" by (rule str_nat_long) simp
  ultimately show ?thesis by simp
qed

text \<open>
  Claim C5, as amended. The sanitizer is not idempotent in general: HTML-escaping
  escapes again the ampersand of an entity it produced. For every string \<open>x\<close> whose
  sanitized form contains no ampersand (in particular for every \<open>x\<close> without any of
  \<open>& < > " '\<close>), sanitizing the sanitized form gives it back unchanged.
\<close>

theorem C5_sanitize_idempotent_without_ampersand:
  assumes "CHR ''&'' \<notin> set (sanitize_input (PyStr x))"
  shows "sanitize_input (PyStr (sanitize_input (PyStr x))) = sanitize_input (PyStr x)"
  using assms by (rule sanitize_idem_if_no_amp)

theorem C5_witness:
  "CHR ''&'' \<notin> set (sanitize_input (PyStr ''  http://example.com/a b  '')) \<and>
   sanitize_input (PyStr (sanitize_input (PyStr ''  http://example.com/a b  ''))) =
     ''http://example.com/a b''"
proof -
  have v: "sanitize_input (PyStr ''  http://example.com/a b  '') = ''http://example.com/a b''"
    by code_simp
  have h: "CHR ''&'' \<notin> set (sanitize_input (PyStr ''  http://example.com/a b  ''))"
    unfolding v by simp
  from C5_sanitize_idempotent_without_ampersand [OF h] h v show ?thesis by simp
qed

theorem C5_counterexample:
  "sanitize_input (PyStr (sanitize_input (PyStr ''&''))) \<noteq> sanitize_input (PyStr ''&'')"
proof -
  have 1: "sanitize_input (PyStr ''&'') = ''&amp;''" by code_simp
  have 2: "sanitize_input (PyStr ''&amp;'') = ''&amp;amp;''" by code_simp
  show ?thesis unfolding 1 2 by simp
qed

text \<open>
  Claim C6, as amended. For every string input the output of the sanitizer has at most
  2048 characters and contains no null character. An input that is not a string is
  returned as its \<open>str()\<close> rendering, untouched, so the bound does not hold for it.
\<close>

theorem C6_sanitized_string_invariant:
  "length (sanitize_input (PyStr s)) \<le> 2048 \<and>
   CHR 0x00 \<notin> set (sanitize_input (PyStr s)) \<and>
   ((\<forall>t. v \<noteq> PyStr t) \<longrightarrow> sanitize_input v = py_str v)"
proof -
  have "(\<forall>t. v \<noteq> PyStr t) \<longrightarrow> sanitize_input v = py_str v"
    by (cases v) (simp_all add: sanitize_input_def)
  with sanitize_length [of s] sanitize_no_null [of s] show ?thesis by simp
qed

theorem C6_witness:
  "length (sanitize_input (PyStr (CHR 0x00 # ''<a>'' @ [CHR 0x00]))) \<le> 2048 \<and>
   CHR 0x00 \<notin> set (sanitize_input (PyStr (CHR 0x00 # ''<a>'' @ [CHR 0x00]))) \<and>
   sanitize_input (PyStr (CHR 0x00 # ''<a>'' @ [CHR 0x00])) = ''&lt;a&gt;'' \<and>
   sanitize_input (PyInt 2048) = ''2048''"
proof -
  have v: "sanitize_input (PyStr (CHR 0x00 # ''<a>'' @ [CHR 0x00])) = ''&lt;a&gt;''"
    by code_simp
  have p: "py_str (PyInt 2048) = ''2048''" by code_simp
  from C6_sanitized_string_invariant [of "CHR 0x00 # ''<a>'' @ [CHR 0x00]" "PyInt 2048"] v p
  show ?thesis by simp
qed

theorem C6_counterexample:
  "\<not> (length (sanitize_input (PyInt (10 ^ 2048))) \<le> 2048 \<and>
      CHR 0x00 \<notin> set (sanitize_input (PyInt (10 ^ 2048))))"
proof
  assume "length (sanitize_input (PyInt (10 ^ 2048))) \<le> 2048 \<and>
      CHR 0x00 \<notin> set (sanitize_input (PyInt (10 ^ 2048)))"
  then have "length (sanitize_input (PyInt (10 ^ 2048))) \<le> 2048" by (rule conjunct1)
  moreover have "2048 < length (sanitize_input (PyInt (10 ^ 2048)))"
    by (rule sanitize_int_long)
  ultimately show False by (meson leD)
qed

section \<open>The heuristic scorer and the explanation generator\<close>

lemma features7_seven:
  "features7 [a, b, c, d, e, f, g] = Inr (a, b, c, d, e, f, g)"
  by (simp add: features7_def)

lemma url_192_features:
  "extract_features ip_address ''http://192.168.1.1/paypal'' = Inr [25, 1, 0, 8, 0, 2, 0]"
  by code_simp

lemma url_google_features:
  "extract_features ip_address ''https://www.google.com'' = Inr [22, 0, 0, 0, 1, 1, 0]"
  by code_simp

text \<open>
  Claim C1. On every vector of seven integers the heuristic scorer returns the weighted
  sum of the specification, clamped to 0..100; the label is Phishing if and only if
  that score is at least 70 and Safe otherwise; the confidence is the constant 0.8
  (which rounding to three decimals leaves as it is). The features of
  \<open>http://192.168.1.1/paypal\<close> are \<open>[25, 1, 0, 8, 0, 2, 0]\<close>, with score 45 and
  label Safe.
\<close>

theorem C1_heuristic_scorer:
  "calculate_mock_score
     [url_length, has_ip, has_at, num_digits, has_https, num_subdomains, has_brand_typo] =
     Inr (spec_heuristic_score url_length has_ip has_at has_https has_brand_typo num_subdomains) \<and>
   mock_branch
     [url_length, has_ip, has_at, num_digits, has_https, num_subdomains, has_brand_typo] =
     Inr (if spec_heuristic_score url_length has_ip has_at has_https has_brand_typo
               num_subdomains \<ge> 70 then ''Phishing'' else ''Safe'',
          8 / 10,
          spec_heuristic_score url_length has_ip has_at has_https has_brand_typo num_subdomains) \<and>
   py_round3 (8 / 10) = 8 / 10 \<and>
   extract_features ip_address ''http://192.168.1.1/paypal'' = Inr [25, 1, 0, 8, 0, 2, 0] \<and>
   mock_branch [25, 1, 0, 8, 0, 2, 0] = Inr (''Safe'', 8 / 10, 45)"
proof -
  have score: "calculate_mock_score [a, b, c, d, e, f, g] =
      Inr (spec_heuristic_score a b c e g f)" for a b c d e f g
    by (simp add: calculate_mock_score_def features7_seven spec_heuristic_score_def)
  have branch: "mock_branch [a, b, c, d, e, f, g] =
      Inr (if spec_heuristic_score a b c e g f \<ge> 70 then ''Phishing'' else ''Safe'',
           8 / 10, spec_heuristic_score a b c e g f)" for a b c d e f g
    by (simp add: mock_branch_def score Let_def)
  have r: "py_round3 (8 / 10) = 8 / 10"
    by (simp add: py_round3_def py_round_def)
  have ex: "mock_branch [25, 1, 0, 8, 0, 2, 0] = Inr (''Safe'', 8 / 10, 45)"
    unfolding branch by (simp add: spec_heuristic_score_def)
  from score branch r ex url_192_features show ?thesis by blast
qed

theorem C1_witness:
  "\<forall>ip_address.
     predict ip_address None ''http://192.168.1.1/paypal'' =
       Ok \<lparr>p_url = ''http://192.168.1.1/paypal'', p_prediction = ''Safe'',
           p_confidence = 8 / 10, p_phishing_score = 45,
           p_features = zip feature_names [25, 1, 0, 8, 0, 2, 0],
           p_reasons = [reason_ip, reason_no_https], p_model_used = ''Mock''\<rparr>"
proof
  fix ip_address
  note c1 = C1_heuristic_scorer [of 25 1 0 8 0 2 0 ip_address]
  have f: "extract_features ip_address ''http://192.168.1.1/paypal'' = Inr [25, 1, 0, 8, 0, 2, 0]"
    using c1 by blast
  have m: "mock_branch [25, 1, 0, 8, 0, 2, 0] = Inr (''Safe'', 8 / 10, 45)"
    using c1 by blast
  have "py_round3 (8 / 10) = 8 / 10" using c1 by blast
  then have r: "py_round3 (4 / 5) = 4 / 5" by simp
  have g: "get_reasons [25, 1, 0, 8, 0, 2, 0] = Inr [reason_ip, reason_no_https]"
    by (simp add: get_reasons_def features7_seven)
  show "predict ip_address None ''http://192.168.1.1/paypal'' =
       Ok \<lparr>p_url = ''http://192.168.1.1/paypal'', p_prediction = ''Safe'',
           p_confidence = 8 / 10, p_phishing_score = 45,
           p_features = zip feature_names [25, 1, 0, 8, 0, 2, 0],
           p_reasons = [reason_ip, reason_no_https], p_model_used = ''Mock''\<rparr>"
    by (simp add: predict_def predict_body_def f m g r)
qed

text \<open>
  Claim C9, as amended. The explanation generator checks the seven predicates in the
  order length, IP address, at sign, no HTTPS, brand typo, subdomains, digits, and
  appends the fixed text of each predicate that holds; when none holds the list is
  the single standard-patterns text. Every text starts with a pictograph and a space:
  for \<open>https://www.google.com\<close> the list holds the one text made of code point
  U+2705, a space and \<open>URL appears to follow standard patterns\<close>.
\<close>

theorem C9_reasons_in_fixed_order:
  "get_reasons
     [url_length, has_ip, has_at, num_digits, has_https, num_subdomains, has_brand_typo] =
     Inr (let fired =
                (if url_length > 75 then [reason_long_url] else []) @
                (if has_ip = 1 then [reason_ip] else []) @
                (if has_at = 1 then [reason_at] else []) @
                (if has_https = 0 then [reason_no_https] else []) @
                (if has_brand_typo = 1 then [reason_brand] else []) @
                (if num_subdomains > 3 then [reason_subdomains] else []) @
                (if num_digits > 10 then [reason_digits] else [])
          in if fired = [] then [reason_standard] else fired) \<and>
   extract_features ip_address ''https://www.google.com'' = Inr [22, 0, 0, 0, 1, 1, 0] \<and>
   get_reasons [22, 0, 0, 0, 1, 1, 0] =
     Inr [[0x2705, 0x20] @ ascii ''URL appears to follow standard patterns'']"
proof -
  have general: "get_reasons [a, b, c, d, e, f, g] =
     Inr (let fired =
                (if a > 75 then [reason_long_url] else []) @
                (if b = 1 then [reason_ip] else []) @
                (if c = 1 then [reason_at] else []) @
                (if e = 0 then [reason_no_https] else []) @
                (if g = 1 then [reason_brand] else []) @
                (if f > 3 then [reason_subdomains] else []) @
                (if d > 10 then [reason_digits] else [])
          in if fired = [] then [reason_standard] else fired)" for a b c d e f g
    by (simp add: get_reasons_def features7_seven Let_def)
  have ex: "get_reasons [22, 0, 0, 0, 1, 1, 0] =
     Inr [[0x2705, 0x20] @ ascii ''URL appears to follow standard patterns'']"
    unfolding general by (simp add: reason_standard_def)
  from general ex url_google_features show ?thesis by blast
qed

theorem C9_witness:
  "get_reasons [80, 1, 0, 12, 0, 1, 1] =
     Inr [reason_long_url, reason_ip, reason_no_https, reason_brand, reason_digits]"
  using C9_reasons_in_fixed_order [of 80 1 0 12 0 1 1] by simp

theorem C9_counterexample:
  "\<not> (\<forall>ip_address. \<exists>features.
        extract_features ip_address ''https://www.google.com'' = Inr features \<and>
        get_reasons features = Inr [ascii ''URL appears to follow standard patterns''])"
proof
  assume "\<forall>ip_address. \<exists>features.
        extract_features ip_address ''https://www.google.com'' = Inr features \<and>
        get_reasons features = Inr [ascii ''URL appears to follow standard patterns'']"
  then obtain features where
    "extract_features (\<lambda>h. Inr IPv6Address) ''https://www.google.com'' = Inr features" and
    g: "get_reasons features = Inr [ascii ''URL appears to follow standard patterns'']"
    by blast
  then have "features = [22, 0, 0, 0, 1, 1, 0]" by (simp add: url_google_features)
  with g have "get_reasons [22, 0, 0, 0, 1, 1, 0] =
      Inr [ascii ''URL appears to follow standard patterns'']" by simp
  moreover have "get_reasons [22, 0, 0, 0, 1, 1, 0] = Inr [reason_standard]"
    by (simp add: get_reasons_def features7_seven)
  ultimately have "reason_standard = ascii ''URL appears to follow standard patterns''"
    by simp
  then have "length reason_standard = length (ascii ''URL appears to follow standard patterns'')"
    by simp
  then show False by (simp add: reason_standard_def ascii_def)
qed


section \<open>The brand-typo feature\<close>

lemma starts_with_prefix: "starts_with p s = prefix p s"
  by (induction p s rule: starts_with.induct) simp_all

lemma py_in_sublist: "py_in p s = sublist p s"
  by (induction s) (simp_all add: starts_with_prefix sublist_Cons_right)

lemma scan_patterns_01: "scan_patterns d b ps = 0 \<or> scan_patterns d b ps = 1"
  by (induction ps) simp_all

lemma scan_patterns_iff:
  "scan_patterns d b ps = 1 \<longleftrightarrow> (\<exists>p \<in> set ps. sublist p d \<and> \<not> sublist b d)"
  by (induction ps) (auto simp: py_in_sublist)

lemma scan_brands_01: "scan_brands d bs = 0 \<or> scan_brands d bs = 1"
proof (induction bs)
  case Nil
  show ?case by simp
next
  case (Cons b bs)
  from scan_patterns_01 [of d b "typo_patterns b"] Cons show ?case
    by (auto simp: Let_def)
qed

lemma scan_brands_iff:
  "scan_brands d bs = 1 \<longleftrightarrow> (\<exists>b \<in> set bs. scan_patterns d b (typo_patterns b) = 1)"
proof (induction bs)
  case Nil
  show ?case by simp
next
  case (Cons b bs)
  from scan_patterns_01 [of d b "typo_patterns b"] Cons show ?case
    by (auto simp: Let_def)
qed

lemma extract_features_brand:
  assumes "urlparse ip_address url = Inr parsed"
  shows "\<exists>features. extract_features ip_address url = Inr features \<and> length features = 7 \<and>
           features ! 6 = brand_typo (netloc parsed)"
  using assms by (simp add: extract_features_def Let_def)

text \<open>
  Claim C8. \<open>has_brand_typo\<close> is 1 exactly when, for some brand of the list, one of
  its candidate patterns occurs in the lower-cased network location while the brand
  itself does not occur in it; otherwise it is 0. A brand that matches settles the
  result whatever brands follow it in the list. The value is the seventh feature of
  every URL that parses. It is 1 for \<open>g00gle-login.com\<close> and 0 for \<open>google.com\<close>
  and \<open>docs.google.com\<close>.
\<close>

theorem C8_brand_typo:
  "(brand_typo domain = 1 \<longleftrightarrow>
      (\<exists>brand \<in> set brands. \<exists>pattern \<in> set (typo_patterns brand).
          sublist pattern (py_lower domain) \<and> \<not> sublist brand (py_lower domain))) \<and>
   (brand_typo domain = 0 \<or> brand_typo domain = 1) \<and>
   (scan_patterns d brand (typo_patterns brand) = 1 \<longrightarrow> scan_brands d (brand # rest) = 1) \<and>
   (urlparse ip_address url = Inr parsed \<longrightarrow>
      (\<exists>features. extract_features ip_address url = Inr features \<and> length features = 7 \<and>
         features ! 6 = brand_typo (netloc parsed))) \<and>
   brand_typo ''g00gle-login.com'' = 1 \<and>
   brand_typo ''google.com'' = 0 \<and>
   brand_typo ''docs.google.com'' = 0"
proof -
  have iff: "brand_typo domain = 1 \<longleftrightarrow>
      (\<exists>brand \<in> set brands. \<exists>pattern \<in> set (typo_patterns brand).
          sublist pattern (py_lower domain) \<and> \<not> sublist brand (py_lower domain))"
    by (simp add: brand_typo_def scan_brands_iff scan_patterns_iff)
  have range: "brand_typo domain = 0 \<or> brand_typo domain = 1"
    unfolding brand_typo_def by (rule scan_brands_01)
  have short: "scan_patterns d brand (typo_patterns brand) = 1 \<longrightarrow>
      scan_brands d (brand # rest) = 1"
    by (simp add: Let_def)
  have feat: "urlparse ip_address url = Inr parsed \<longrightarrow>
      (\<exists>features. extract_features ip_address url = Inr features \<and> length features = 7 \<and>
         features ! 6 = brand_typo (netloc parsed))"
    using extract_features_brand by blast
  have e1: "brand_typo ''g00gle-login.com'' = 1" by code_simp
  have e2: "brand_typo ''google.com'' = 0" by code_simp
  have e3: "brand_typo ''docs.google.com'' = 0" by code_simp
  from iff range short feat e1 e2 e3 show ?thesis by blast
qed

theorem C8_witness:
  "\<forall>ip_address.
     urlparse ip_address ''http://g00gle-login.com/verify'' =
       Inr \<lparr>scheme = ''http'', netloc = ''g00gle-login.com''\<rparr> \<and>
     extract_features ip_address ''http://g00gle-login.com/verify'' =
       Inr [30, 0, 0, 2, 0, 0, 1] \<and>
     scan_patterns ''g00gle-login.com'' ''google'' (typo_patterns ''google'') = 1 \<and>
     scan_brands ''g00gle-login.com'' (''google'' # [''facebook'']) = 1 \<and>
     sublist ''g00gle'' (py_lower ''g00gle-login.com'') \<and>
     \<not> sublist ''google'' (py_lower ''g00gle-login.com'')"
proof
  fix ip_address
  note c8 = C8_brand_typo [of "''g00gle-login.com''" "''g00gle-login.com''" "''google''"
      "[''facebook'']" ip_address "''http://g00gle-login.com/verify''"
      "\<lparr>scheme = ''http'', netloc = ''g00gle-login.com''\<rparr>"]
  have u: "urlparse ip_address ''http://g00gle-login.com/verify'' =
       Inr \<lparr>scheme = ''http'', netloc = ''g00gle-login.com''\<rparr>" by code_simp
  have f: "extract_features ip_address ''http://g00gle-login.com/verify'' =
       Inr [30, 0, 0, 2, 0, 0, 1]" by code_simp
  have p: "scan_patterns ''g00gle-login.com'' ''google'' (typo_patterns ''google'') = 1"
    by code_simp
  from c8 p have s: "scan_brands ''g00gle-login.com'' (''google'' # [''facebook'']) = 1"
    by blast
  have a: "sublist ''g00gle'' (py_lower ''g00gle-login.com'')"
    unfolding py_in_sublist [symmetric] by code_simp
  have b: "\<not> sublist ''google'' (py_lower ''g00gle-login.com'')"
    unfolding py_in_sublist [symmetric] by code_simp
  from u f p s a b
  show "urlparse ip_address ''http://g00gle-login.com/verify'' =
       Inr \<lparr>scheme = ''http'', netloc = ''g00gle-login.com''\<rparr> \<and>
     extract_features ip_address ''http://g00gle-login.com/verify'' =
       Inr [30, 0, 0, 2, 0, 0, 1] \<and>
     scan_patterns ''g00gle-login.com'' ''google'' (typo_patterns ''google'') = 1 \<and>
     scan_brands ''g00gle-login.com'' (''google'' # [''facebook'']) = 1 \<and>
     sublist ''g00gle'' (py_lower ''g00gle-login.com'') \<and>
     \<not> sublist ''google'' (py_lower ''g00gle-login.com'')" by blast
qed


section \<open>The validator and the parser\<close>

lemma first_malicious_None:
  "first_malicious u ps = None \<longleftrightarrow> (\<forall>q \<in> set ps. \<not> re_search q u)"
  by (induction ps) auto

lemma first_malicious_first:
  "(\<forall>q \<in> set pre. \<not> re_search q u) \<Longrightarrow> re_search p u \<Longrightarrow>
     first_malicious u (pre @ p # post) = Some p"
  by (induction pre) auto

lemma re_search_javascript: "re_search ''javascript:'' u = sublist ''javascript:'' u"
  by (simp add: re_search_def py_in_sublist)

lemma javascript_first:
  "sublist ''javascript:'' u \<Longrightarrow> first_malicious u malicious_patterns = Some ''javascript:''"
  by (simp add: malicious_patterns_def re_search_javascript)

lemma re_search_absent_char: "c \<in> set (re_unescape p) \<Longrightarrow> c \<notin> set u \<Longrightarrow> \<not> re_search p u"
  using set_mono_sublist [of "re_unescape p" u] by (auto simp: re_search_def py_in_sublist)

lemma set_split_scheme: "set (snd (split_scheme u)) \<subseteq> set u"
  using set_drop_subset [of _ u] by (auto simp: split_scheme_def Let_def)

lemma set_splitnetloc: "set (fst (splitnetloc u k)) \<subseteq> set u"
proof -
  have "set (take m (drop k u)) \<subseteq> set u" for m
    using set_take_subset [of m "drop k u"] set_drop_subset [of k u] by blast
  then show ?thesis by (simp add: splitnetloc_def Let_def)
qed

lemma urlparse_no_brackets:
  assumes "is_ascii url" and "CHR ''['' \<notin> set url" and "CHR '']'' \<notin> set url"
  shows "\<exists>parsed. urlparse ip_address url = Inr parsed"
proof -
  let ?u = "filter (\<lambda>c. c \<notin> set unsafe_url_bytes) (dropWhile c0_control_or_space url)"
  let ?r = "snd (split_scheme ?u)"
  let ?n = "fst (splitnetloc ?r 2)"
  have "set ?u \<subseteq> set url" using set_dropWhileD [of _ c0_control_or_space url] by auto
  with set_split_scheme [of ?u] have "set ?r \<subseteq> set url" by blast
  with set_splitnetloc [of ?r 2] have "set ?n \<subseteq> set url" by blast
  with assms(2,3) have "CHR ''['' \<notin> set ?n" and "CHR '']'' \<notin> set ?n" by blast+
  then show ?thesis
    by (simp add: urlparse_def Let_def split_beta)
qed

lemma extract_features_length:
  "extract_features ip_address url = Inr features \<Longrightarrow> length features = 7"
  by (auto simp: extract_features_def Let_def split: sum.splits)

lemma extract_features_raises:
  "extract_features ip_address url = Inl e \<longleftrightarrow> urlparse ip_address url = Inl e"
  by (auto simp: extract_features_def Let_def split: sum.splits)

lemma urlparse_open_bracket:
  "urlparse ip_address ''http://['' = Inl (ValueError ''Invalid IPv6 URL'')"
  by code_simp

lemma validate_url_returns: "\<exists>valid message. validate_url ip_address url = Inr (valid, message)"
  by (auto simp: validate_url_def format_checks_def split: option.splits sum.splits)

lemma validate_url_empty: "validate_url ip_address [] = Inr (False, ''URL cannot be empty'')"
  by (simp add: validate_url_def)

lemma validate_url_too_long:
  "length url > 2048 \<Longrightarrow>
     validate_url ip_address url = Inr (False, ''URL too long (max 2048 characters)'')"
  by (auto simp: validate_url_def)

lemma validate_url_pattern:
  assumes "url \<noteq> []" and "length url \<le> 2048"
    and "first_malicious (py_lower url) malicious_patterns = Some pattern"
  shows "validate_url ip_address url =
     Inr (False, ''URL contains potentially malicious content: '' @ pattern)"
  using assms by (simp add: validate_url_def)

lemma validate_url_parsed:
  assumes "url \<noteq> []" and "length url \<le> 2048"
    and "first_malicious (py_lower url) malicious_patterns = None"
    and "urlparse ip_address url = Inr parsed"
  shows "validate_url ip_address url =
     (if scheme parsed = [] \<or> netloc parsed = [] then Inr (False, ''Invalid URL format'')
      else if scheme parsed \<noteq> ''http'' \<and> scheme parsed \<noteq> ''https''
      then Inr (False, ''Only HTTP and HTTPS URLs are supported'')
      else Inr (True, []))"
  using assms by (simp add: validate_url_def format_checks_def)

lemma validate_url_parse_error:
  assumes "url \<noteq> []" and "length url \<le> 2048"
    and "first_malicious (py_lower url) malicious_patterns = None"
    and "urlparse ip_address url = Inl e"
  shows "validate_url ip_address url = Inr (False, ''URL parsing error: '' @ exn_str e)"
  using assms by (simp add: validate_url_def format_checks_def)

text \<open>
  Claim C3, as amended. The validator applies its rules in order and the first failure
  decides: the empty string is rejected with \<open>URL cannot be empty\<close>; then a length
  above 2048 with \<open>URL too long (max 2048 characters)\<close>; then the first pattern of
  the list that occurs in the lower-cased URL, with a reason that ends in that
  pattern; then, when the URL parses, a missing scheme or network location with
  \<open>Invalid URL format\<close>; then a scheme other than http and https with
  \<open>Only HTTP and HTTPS URLs are supported\<close>; any other URL that parses is
  accepted. Every URL whose lower-cased form contains \<open>javascript:\<close> is rejected.
\<close>

theorem C3_validator_rules_in_order:
  "validate_url ip_address [] = Inr (False, ''URL cannot be empty'') \<and>
   (url \<noteq> [] \<and> length url > 2048 \<longrightarrow>
      validate_url ip_address url = Inr (False, ''URL too long (max 2048 characters)'')) \<and>
   (url \<noteq> [] \<and> length url \<le> 2048 \<and> malicious_patterns = pre @ pattern # post \<and>
    (\<forall>q \<in> set pre. \<not> re_search q (py_lower url)) \<and> re_search pattern (py_lower url) \<longrightarrow>
      validate_url ip_address url =
        Inr (False, ''URL contains potentially malicious content: '' @ pattern)) \<and>
   (url \<noteq> [] \<and> length url \<le> 2048 \<and>
    (\<forall>q \<in> set malicious_patterns. \<not> re_search q (py_lower url)) \<and>
    urlparse ip_address url = Inr parsed \<longrightarrow>
      validate_url ip_address url =
        (if scheme parsed = [] \<or> netloc parsed = [] then Inr (False, ''Invalid URL format'')
         else if scheme parsed \<noteq> ''http'' \<and> scheme parsed \<noteq> ''https''
         then Inr (False, ''Only HTTP and HTTPS URLs are supported'')
         else Inr (True, []))) \<and>
   (sublist ''javascript:'' (py_lower url) \<longrightarrow>
      (\<exists>reason. validate_url ip_address url = Inr (False, reason)))"
proof -
  have r2: "url \<noteq> [] \<and> length url > 2048 \<longrightarrow>
      validate_url ip_address url = Inr (False, ''URL too long (max 2048 characters)'')"
    using validate_url_too_long by blast
  have r3: "url \<noteq> [] \<and> length url \<le> 2048 \<and> malicious_patterns = pre @ pattern # post \<and>
    (\<forall>q \<in> set pre. \<not> re_search q (py_lower url)) \<and> re_search pattern (py_lower url) \<longrightarrow>
      validate_url ip_address url =
        Inr (False, ''URL contains potentially malicious content: '' @ pattern)"
  proof (intro impI, elim conjE)
    assume u: "url \<noteq> []" "length url \<le> 2048" and m: "malicious_patterns = pre @ pattern # post"
      and n: "\<forall>q \<in> set pre. \<not> re_search q (py_lower url)" and p: "re_search pattern (py_lower url)"
    from first_malicious_first [OF n p, of post] m
    have "first_malicious (py_lower url) malicious_patterns = Some pattern" by simp
    with u show "validate_url ip_address url =
        Inr (False, ''URL contains potentially malicious content: '' @ pattern)"
      by (rule validate_url_pattern)
  qed
  have r45: "url \<noteq> [] \<and> length url \<le> 2048 \<and>
    (\<forall>q \<in> set malicious_patterns. \<not> re_search q (py_lower url)) \<and>
    urlparse ip_address url = Inr parsed \<longrightarrow>
      validate_url ip_address url =
        (if scheme parsed = [] \<or> netloc parsed = [] then Inr (False, ''Invalid URL format'')
         else if scheme parsed \<noteq> ''http'' \<and> scheme parsed \<noteq> ''https''
         then Inr (False, ''Only HTTP and HTTPS URLs are supported'')
         else Inr (True, []))"
    using validate_url_parsed [of url ip_address parsed]
    by (simp add: first_malicious_None)
  have js: "sublist ''javascript:'' (py_lower url) \<longrightarrow>
      (\<exists>reason. validate_url ip_address url = Inr (False, reason))"
  proof
    assume s: "sublist ''javascript:'' (py_lower url)"
    show "\<exists>reason. validate_url ip_address url = Inr (False, reason)"
    proof (cases "url = [] \<or> length url > 2048")
      case True
      then show ?thesis using validate_url_empty validate_url_too_long by blast
    next
      case False
      then have "url \<noteq> []" and "length url \<le> 2048" by auto
      then show ?thesis
        using validate_url_pattern [OF _ _ javascript_first [OF s]] by blast
    qed
  qed
  from validate_url_empty r2 r3 r45 js show ?thesis by blast
qed

lemma validate_examples:
  "first_malicious (py_lower ''a.com/'') malicious_patterns = None"
  "urlparse ip_address ''a.com/'' = Inr \<lparr>scheme = [], netloc = []\<rparr>"
  "first_malicious (py_lower ''ftp://a.com/'') malicious_patterns = None"
  "urlparse ip_address ''ftp://a.com/'' = Inr \<lparr>scheme = ''ftp'', netloc = ''a.com''\<rparr>"
  "first_malicious (py_lower ''HTTP://A.com/'') malicious_patterns = None"
  "urlparse ip_address ''HTTP://A.com/'' = Inr \<lparr>scheme = ''http'', netloc = ''A.com''\<rparr>"
  "first_malicious (py_lower ''http://['') malicious_patterns = None"
  by code_simp+

theorem C3_witness:
  "\<forall>ip_address.
     validate_url ip_address (replicate 2049 (CHR ''a'')) =
       Inr (False, ''URL too long (max 2048 characters)'') \<and>
     re_search (''eval'' @ [CHR 0x5C] @ ''('') (py_lower ''http://a.com/?x=EVAL(1'') \<and>
     validate_url ip_address ''http://a.com/?x=EVAL(1'' =
       Inr (False, ''URL contains potentially malicious content: eval'' @ [CHR 0x5C] @ ''('') \<and>
     validate_url ip_address ''a.com/'' = Inr (False, ''Invalid URL format'') \<and>
     validate_url ip_address ''ftp://a.com/'' =
       Inr (False, ''Only HTTP and HTTPS URLs are supported'') \<and>
     validate_url ip_address ''HTTP://A.com/'' = Inr (True, []) \<and>
     sublist ''javascript:'' (py_lower ''http://a.com/?x=JavaScript:1'') \<and>
     validate_url ip_address ''http://a.com/?x=JavaScript:1'' =
       Inr (False, ''URL contains potentially malicious content: javascript:'')"
proof
  fix ip_address
  have w2: "validate_url ip_address (replicate 2049 (CHR ''a'')) =
       Inr (False, ''URL too long (max 2048 characters)'')"
    using C3_validator_rules_in_order [of ip_address "replicate 2049 (CHR ''a'')"]
    by simp
  let ?pre = "[''javascript:'', ''data:'', ''vbscript:'', ''file:'',
      ''<script'', ''</script>'', ''<iframe'', ''</iframe>'']"
  have m: "malicious_patterns = ?pre @ (''eval'' @ [CHR 0x5C] @ ''('') # [''alert'' @ [CHR 0x5C] @ ''('']"
    by (simp add: malicious_patterns_def)
  have n: "first_malicious (py_lower ''http://a.com/?x=EVAL(1'') ?pre = None" by code_simp
  have p: "re_search (''eval'' @ [CHR 0x5C] @ ''('') (py_lower ''http://a.com/?x=EVAL(1'')"
    by code_simp
  have w3: "validate_url ip_address ''http://a.com/?x=EVAL(1'' =
       Inr (False, ''URL contains potentially malicious content: eval'' @ [CHR 0x5C] @ ''('')"
    using C3_validator_rules_in_order [of ip_address "''http://a.com/?x=EVAL(1''" ?pre
        "''eval'' @ [CHR 0x5C] @ ''(''" "[''alert'' @ [CHR 0x5C] @ ''('']"]
      m p n [unfolded first_malicious_None]
    by simp
  have w4: "validate_url ip_address ''a.com/'' = Inr (False, ''Invalid URL format'')"
    using C3_validator_rules_in_order [of ip_address "''a.com/''" _ _ _
        "\<lparr>scheme = [], netloc = []\<rparr>"]
      validate_examples(1) [unfolded first_malicious_None] validate_examples(2) [of ip_address]
    by simp
  have w5: "validate_url ip_address ''ftp://a.com/'' =
       Inr (False, ''Only HTTP and HTTPS URLs are supported'')"
    using C3_validator_rules_in_order [of ip_address "''ftp://a.com/''" _ _ _
        "\<lparr>scheme = ''ftp'', netloc = ''a.com''\<rparr>"]
      validate_examples(3) [unfolded first_malicious_None] validate_examples(4) [of ip_address]
    by simp
  have w6: "validate_url ip_address ''HTTP://A.com/'' = Inr (True, [])"
    using C3_validator_rules_in_order [of ip_address "''HTTP://A.com/''" _ _ _
        "\<lparr>scheme = ''http'', netloc = ''A.com''\<rparr>"]
      validate_examples(5) [unfolded first_malicious_None] validate_examples(6) [of ip_address]
    by simp
  have j: "sublist ''javascript:'' (py_lower ''http://a.com/?x=JavaScript:1'')"
    unfolding py_in_sublist [symmetric] by code_simp
  have w7: "validate_url ip_address ''http://a.com/?x=JavaScript:1'' =
       Inr (False, ''URL contains potentially malicious content: javascript:'')"
    using C3_validator_rules_in_order [of ip_address "''http://a.com/?x=JavaScript:1''" "[]"
        "''javascript:''" "tl malicious_patterns"] j
    by (simp add: malicious_patterns_def re_search_javascript)
  from w2 p w3 w4 w5 w6 j w7
  show "validate_url ip_address (replicate 2049 (CHR ''a'')) =
       Inr (False, ''URL too long (max 2048 characters)'') \<and>
     re_search (''eval'' @ [CHR 0x5C] @ ''('') (py_lower ''http://a.com/?x=EVAL(1'') \<and>
     validate_url ip_address ''http://a.com/?x=EVAL(1'' =
       Inr (False, ''URL contains potentially malicious content: eval'' @ [CHR 0x5C] @ ''('') \<and>
     validate_url ip_address ''a.com/'' = Inr (False, ''Invalid URL format'') \<and>
     validate_url ip_address ''ftp://a.com/'' =
       Inr (False, ''Only HTTP and HTTPS URLs are supported'') \<and>
     validate_url ip_address ''HTTP://A.com/'' = Inr (True, []) \<and>
     sublist ''javascript:'' (py_lower ''http://a.com/?x=JavaScript:1'') \<and>
     validate_url ip_address ''http://a.com/?x=JavaScript:1'' =
       Inr (False, ''URL contains potentially malicious content: javascript:'')"
    by blast
qed

theorem C3_counterexample:
  "\<not> (\<forall>ip_address url. url \<noteq> [] \<and> length url > 2048 \<longrightarrow>
        validate_url ip_address url = Inr (False, ''URL too long''))"
proof
  assume a: "\<forall>ip_address url. url \<noteq> [] \<and> length url > 2048 \<longrightarrow>
        validate_url ip_address url = Inr (False, ''URL too long'')"
  let ?u = "replicate 2049 (CHR ''a'')"
  have l: "length ?u > 2048" by simp
  then have ne: "?u \<noteq> []" by auto
  from a l ne have "validate_url (\<lambda>h. Inr IPv6Address) ?u = Inr (False, ''URL too long'')"
    by blast
  moreover from l have "validate_url (\<lambda>h. Inr IPv6Address) ?u =
      Inr (False, ''URL too long (max 2048 characters)'')"
    by (rule validate_url_too_long)
  ultimately show False by simp
qed

text \<open>
  Claim C10. On every string the validator returns a pair of a truth value and a
  message; it never raises. When the URL passes the first three rules and
  \<open>urlparse\<close> raises, the exception is turned into a rejection whose message is
  \<open>URL parsing error:\<close> followed by the text of the exception; \<open>http://[\<close> is
  such a URL. No message of the five rules of the specification starts like that,
  so this is a sixth kind of rejection.
\<close>

theorem C10_validator_total:
  "(\<exists>valid message. validate_url ip_address url = Inr (valid, message)) \<and>
   (url \<noteq> [] \<and> length url \<le> 2048 \<and>
    (\<forall>q \<in> set malicious_patterns. \<not> re_search q (py_lower url)) \<and>
    urlparse ip_address url = Inl e \<longrightarrow>
      validate_url ip_address url = Inr (False, ''URL parsing error: '' @ exn_str e)) \<and>
   urlparse ip_address ''http://['' = Inl (ValueError ''Invalid IPv6 URL'') \<and>
   validate_url ip_address ''http://['' = Inr (False, ''URL parsing error: Invalid IPv6 URL'') \<and>
   ''URL parsing error: '' @ text \<noteq> ''URL cannot be empty'' \<and>
   ''URL parsing error: '' @ text \<noteq> ''URL too long (max 2048 characters)'' \<and>
   ''URL parsing error: '' @ text \<noteq> ''URL contains potentially malicious content: '' @ pattern \<and>
   ''URL parsing error: '' @ text \<noteq> ''Invalid URL format'' \<and>
   ''URL parsing error: '' @ text \<noteq> ''Only HTTP and HTTPS URLs are supported''"
proof -
  have conv: "url \<noteq> [] \<and> length url \<le> 2048 \<and>
    (\<forall>q \<in> set malicious_patterns. \<not> re_search q (py_lower url)) \<and>
    urlparse ip_address url = Inl e \<longrightarrow>
      validate_url ip_address url = Inr (False, ''URL parsing error: '' @ exn_str e)"
    using validate_url_parse_error [of url ip_address e] by (simp add: first_malicious_None)
  have ex: "validate_url ip_address ''http://['' =
      Inr (False, ''URL parsing error: Invalid IPv6 URL'')"
    using validate_url_parse_error [OF _ _ validate_examples(7) urlparse_open_bracket,
        of ip_address]
    by simp
  have msgs: "''URL parsing error: '' @ text \<noteq> ''URL cannot be empty''"
    "''URL parsing error: '' @ text \<noteq> ''URL too long (max 2048 characters)''"
    "''URL parsing error: '' @ text \<noteq> ''URL contains potentially malicious content: '' @ pattern"
    "''URL parsing error: '' @ text \<noteq> ''Invalid URL format''"
    "''URL parsing error: '' @ text \<noteq> ''Only HTTP and HTTPS URLs are supported''"
    by simp_all
  from validate_url_returns [of ip_address url] conv urlparse_open_bracket [of ip_address] ex msgs
  show ?thesis by blast
qed

theorem C10_witness:
  "\<forall>ip_address.
     ''http://['' \<noteq> [] \<and> length ''http://['' \<le> 2048 \<and>
     first_malicious (py_lower ''http://['') malicious_patterns = None \<and>
     urlparse ip_address ''http://['' = Inl (ValueError ''Invalid IPv6 URL'') \<and>
     validate_url ip_address ''http://['' =
       Inr (False, ''URL parsing error: '' @ exn_str (ValueError ''Invalid IPv6 URL''))"
proof
  fix ip_address
  note c10 = C10_validator_total [of ip_address "''http://[''" "ValueError ''Invalid IPv6 URL''"]
  have n: "first_malicious (py_lower ''http://['') malicious_patterns = None"
    by (rule validate_examples(7))
  have u: "urlparse ip_address ''http://['' = Inl (ValueError ''Invalid IPv6 URL'')"
    using c10 by blast
  have "validate_url ip_address ''http://['' =
       Inr (False, ''URL parsing error: '' @ exn_str (ValueError ''Invalid IPv6 URL''))"
    using c10 n [unfolded first_malicious_None] u by simp
  with n u
  show "''http://['' \<noteq> [] \<and> length ''http://['' \<le> 2048 \<and>
     first_malicious (py_lower ''http://['') malicious_patterns = None \<and>
     urlparse ip_address ''http://['' = Inl (ValueError ''Invalid IPv6 URL'') \<and>
     validate_url ip_address ''http://['' =
       Inr (False, ''URL parsing error: '' @ exn_str (ValueError ''Invalid IPv6 URL''))"
    by simp
qed

lemma validated_url_parses:
  assumes "validate_url ip_address url = Inr (True, message)"
  shows "\<exists>parsed. urlparse ip_address url = Inr parsed"
  using assms
  by (auto simp: validate_url_def format_checks_def split: if_splits option.splits sum.splits)

text \<open>
  Claim C2, as amended. The feature extractor is a function of the URL (and of the
  address library). It returns a vector of exactly seven components whenever
  \<open>urlparse\<close> returns, in particular for every URL that the validator accepts and
  for every ASCII URL without a square bracket, and it raises exactly the exception
  that \<open>urlparse\<close> raises otherwise: for \<open>http://[\<close> a \<open>ValueError\<close>, with no
  vector in its place. The vector of seven zeros is put in by the training script's
  \<open>extract_features_from_urls\<close>, which returns one row of seven components for
  every URL.
\<close>

theorem C2_extractor_returns_or_propagates:
  "(extract_features ip_address url = Inl e \<longleftrightarrow> urlparse ip_address url = Inl e) \<and>
   (extract_features ip_address url = Inr features \<longrightarrow> length features = 7) \<and>
   (validate_url ip_address url = Inr (True, message) \<longrightarrow>
      (\<exists>features. extract_features ip_address url = Inr features \<and> length features = 7)) \<and>
   (is_ascii url \<and> CHR ''['' \<notin> set url \<and> CHR '']'' \<notin> set url \<longrightarrow>
      (\<exists>features. extract_features ip_address url = Inr features \<and> length features = 7)) \<and>
   extract_features ip_address ''http://['' = Inl (ValueError ''Invalid IPv6 URL'') \<and>
   length (extract_features_from_urls ip_address urls) = length urls \<and>
   (\<forall>row \<in> set (extract_features_from_urls ip_address urls). length row = 7) \<and>
   (i < length urls \<and> extract_features ip_address (urls ! i) = Inl e \<longrightarrow>
      extract_features_from_urls ip_address urls ! i = [0, 0, 0, 0, 0, 0, 0])"
proof -
  have len: "extract_features ip_address url = Inr features \<longrightarrow> length features = 7"
    using extract_features_length by blast
  have va: "validate_url ip_address url = Inr (True, message) \<longrightarrow>
      (\<exists>features. extract_features ip_address url = Inr features \<and> length features = 7)"
  proof
    assume "validate_url ip_address url = Inr (True, message)"
    then obtain parsed where "urlparse ip_address url = Inr parsed"
      using validated_url_parses by blast
    then show "\<exists>features. extract_features ip_address url = Inr features \<and> length features = 7"
      by (simp add: extract_features_def Let_def)
  qed
  have nb: "is_ascii url \<and> CHR ''['' \<notin> set url \<and> CHR '']'' \<notin> set url \<longrightarrow>
      (\<exists>features. extract_features ip_address url = Inr features \<and> length features = 7)"
  proof
    assume "is_ascii url \<and> CHR ''['' \<notin> set url \<and> CHR '']'' \<notin> set url"
    then obtain parsed where "urlparse ip_address url = Inr parsed"
      using urlparse_no_brackets by blast
    then show "\<exists>features. extract_features ip_address url = Inr features \<and> length features = 7"
      by (simp add: extract_features_def Let_def)
  qed
  have ex: "extract_features ip_address ''http://['' = Inl (ValueError ''Invalid IPv6 URL'')"
    by (simp add: extract_features_raises urlparse_open_bracket)
  have n: "length (extract_features_from_urls ip_address urls) = length urls"
    by (simp add: extract_features_from_urls_def)
  have rows: "\<forall>row \<in> set (extract_features_from_urls ip_address urls). length row = 7"
    by (auto simp: extract_features_from_urls_def extract_features_length split: sum.splits)
  have zero: "i < length urls \<and> extract_features ip_address (urls ! i) = Inl e \<longrightarrow>
      extract_features_from_urls ip_address urls ! i = [0, 0, 0, 0, 0, 0, 0]"
    by (simp add: extract_features_from_urls_def eval_nat_numeral)
  from extract_features_raises [of ip_address url e] len va nb ex n rows zero
  show ?thesis by blast
qed

theorem C2_witness:
  "\<forall>ip_address.
     validate_url ip_address ''https://www.google.com'' = Inr (True, []) \<and>
     is_ascii ''https://www.google.com'' \<and>
     CHR ''['' \<notin> set ''https://www.google.com'' \<and> CHR '']'' \<notin> set ''https://www.google.com'' \<and>
     extract_features ip_address ''https://www.google.com'' = Inr [22, 0, 0, 0, 1, 1, 0] \<and>
     extract_features ip_address ([''https://www.google.com'', ''http://[''] ! 1) =
       Inl (ValueError ''Invalid IPv6 URL'') \<and>
     extract_features_from_urls ip_address [''https://www.google.com'', ''http://[''] =
       [[22, 0, 0, 0, 1, 1, 0], [0, 0, 0, 0, 0, 0, 0]]"
proof
  fix ip_address
  let ?urls = "[''https://www.google.com'', ''http://['']"
  note c2 = C2_extractor_returns_or_propagates [of ip_address "''https://www.google.com''"
      "ValueError ''Invalid IPv6 URL''" "[22, 0, 0, 0, 1, 1, 0]" "[]" ?urls 1]
  have v: "validate_url ip_address ''https://www.google.com'' = Inr (True, [])"
    by code_simp
  have a: "is_ascii ''https://www.google.com''" by code_simp
  have g: "extract_features ip_address ''https://www.google.com'' = Inr [22, 0, 0, 0, 1, 1, 0]"
    by (rule url_google_features)
  have b: "extract_features ip_address (?urls ! 1) = Inl (ValueError ''Invalid IPv6 URL'')"
    using c2 by simp
  with c2 have r1: "extract_features_from_urls ip_address ?urls ! 1 = [0, 0, 0, 0, 0, 0, 0]"
    by simp
  have r0: "extract_features_from_urls ip_address ?urls ! 0 = [22, 0, 0, 0, 1, 1, 0]"
    by (simp add: extract_features_from_urls_def g)
  from c2 have l: "length (extract_features_from_urls ip_address ?urls) = 2" by simp
  have all: "extract_features_from_urls ip_address ?urls =
       [[22, 0, 0, 0, 1, 1, 0], [0, 0, 0, 0, 0, 0, 0]]"
    using r0 r1 l by (simp add: extract_features_from_urls_def)
  from v a g b all
  show "validate_url ip_address ''https://www.google.com'' = Inr (True, []) \<and>
     is_ascii ''https://www.google.com'' \<and>
     CHR ''['' \<notin> set ''https://www.google.com'' \<and> CHR '']'' \<notin> set ''https://www.google.com'' \<and>
     extract_features ip_address ''https://www.google.com'' = Inr [22, 0, 0, 0, 1, 1, 0] \<and>
     extract_features ip_address ([''https://www.google.com'', ''http://[''] ! 1) =
       Inl (ValueError ''Invalid IPv6 URL'') \<and>
     extract_features_from_urls ip_address [''https://www.google.com'', ''http://[''] =
       [[22, 0, 0, 0, 1, 1, 0], [0, 0, 0, 0, 0, 0, 0]]"
    by simp
qed

theorem C2_counterexample:
  "\<not> (\<forall>ip_address url. \<exists>features. extract_features ip_address url = Inr features)"
proof
  assume "\<forall>ip_address url. \<exists>features. extract_features ip_address url = Inr features"
  then obtain features where
    "extract_features (\<lambda>h. Inr IPv6Address) ''http://['' = Inr features" by blast
  moreover have "extract_features (\<lambda>h. Inr IPv6Address) ''http://['' =
      Inl (ValueError ''Invalid IPv6 URL'')"
    by (simp add: extract_features_raises urlparse_open_bracket)
  ultimately show False by simp
qed


section \<open>The request pipeline\<close>

lemma py_strip_fixed:
  assumes "s \<noteq> []" and "\<not> is_space (hd s)" and "\<not> is_space (last s)"
  shows "py_strip s = s"
proof -
  have 1: "dropWhile is_space s = s" using assms by (intro dropWhile_fixed) simp
  have "hd (rev s) = last s" using assms by (simp add: hd_rev)
  then have 2: "dropWhile is_space (rev s) = rev s" using assms by (intro dropWhile_fixed) simp
  show ?thesis by (simp add: py_strip_def 1 2)
qed

text \<open>A family of well-formed URLs of any length: \<open>http://a.com/aaa...\<close>.\<close>

lemma padded_url_sanitized:
  "sanitize_input (PyStr (''http://a.com/'' @ replicate n (CHR ''a''))) =
     ''http://a.com/'' @ replicate (min 2035 n) (CHR ''a'')"
proof -
  let ?u = "''http://a.com/'' @ replicate n (CHR ''a'')"
  let ?t = "''http://a.com/'' @ replicate (min 2035 n) (CHR ''a'')"
  have n: "py_replace (CHR 0x00) [] ?u = ?u"
    by (rule py_replace_absent) (simp add: set_replicate_conv_if)
  have e: "html_escape ?u = ?u"
    by (rule html_escape_plain) (simp add: set_replicate_conv_if)
  have k: "take 2048 ?u = ?t" by (simp add: min.commute)
  have "last ?t = (if min 2035 n = 0 then CHR ''/'' else CHR ''a'')"
    by (cases "min 2035 n") simp_all
  then have "\<not> is_space (last ?t)" by (simp add: is_space_def)
  moreover have "\<not> is_space (hd ?t)" by (simp add: is_space_def)
  ultimately have s: "py_strip ?t = ?t" by (intro py_strip_fixed) simp_all
  show ?thesis unfolding sanitize_str n e k s ..
qed

lemma padded_url_parsed:
  "urlparse ip_address (''http://a.com/'' @ replicate m (CHR ''a'')) =
     Inr \<lparr>scheme = ''http'', netloc = ''a.com''\<rparr>"
  by (simp add: urlparse_def split_scheme_def py_find_def splitnetloc_def
      c0_control_or_space_def unsafe_url_bytes_def is_ascii_alpha_def scheme_chars_def
      py_lower_def lower_char_def set_replicate_conv_if)

lemma padded_url_valid:
  assumes "m \<le> 2035"
  shows "validate_url ip_address (''http://a.com/'' @ replicate m (CHR ''a'')) = Inr (True, [])"
proof -
  let ?t = "''http://a.com/'' @ replicate m (CHR ''a'')"
  have l: "py_lower ?t = ?t" by (simp add: py_lower_def lower_char_def)
  have n1: "\<not> re_search ''javascript:'' ?t"
    by (rule re_search_absent_char [of "CHR ''j''"]) (simp_all add: set_replicate_conv_if)
  have n2: "\<not> re_search ''data:'' ?t"
    by (rule re_search_absent_char [of "CHR ''d''"]) (simp_all add: set_replicate_conv_if)
  have n3: "\<not> re_search ''vbscript:'' ?t"
    by (rule re_search_absent_char [of "CHR ''v''"]) (simp_all add: set_replicate_conv_if)
  have n4: "\<not> re_search ''file:'' ?t"
    by (rule re_search_absent_char [of "CHR ''f''"]) (simp_all add: set_replicate_conv_if)
  have n5: "\<not> re_search ''<script'' ?t"
    by (rule re_search_absent_char [of "CHR ''<''"]) (simp_all add: set_replicate_conv_if)
  have n6: "\<not> re_search ''</script>'' ?t"
    by (rule re_search_absent_char [of "CHR ''<''"]) (simp_all add: set_replicate_conv_if)
  have n7: "\<not> re_search ''<iframe'' ?t"
    by (rule re_search_absent_char [of "CHR ''<''"]) (simp_all add: set_replicate_conv_if)
  have n8: "\<not> re_search ''</iframe>'' ?t"
    by (rule re_search_absent_char [of "CHR ''<''"]) (simp_all add: set_replicate_conv_if)
  have n9: "\<not> re_search (''eval'' @ [CHR 0x5C] @ ''('') ?t"
    by (rule re_search_absent_char [of "CHR ''e''"]) (simp_all add: set_replicate_conv_if)
  have n10: "\<not> re_search (''alert'' @ [CHR 0x5C] @ ''('') ?t"
    by (rule re_search_absent_char [of "CHR ''l''"]) (simp_all add: set_replicate_conv_if)
  have "first_malicious ?t malicious_patterns = None"
    using n1 n2 n3 n4 n5 n6 n7 n8 n9 n10 by (simp add: malicious_patterns_def)
  then have none: "first_malicious (py_lower ?t) malicious_patterns = None"
    by (simp only: l)
  have "length ?t \<le> 2048" using assms by simp
  moreover have "?t \<noteq> []" by simp
  ultimately show ?thesis
    using validate_url_parsed [OF _ _ none padded_url_parsed] by simp
qed

lemma validate_url_not_too_long:
  assumes "length url \<le> 2048"
  shows "validate_url ip_address url \<noteq> Inr (False, ''URL too long (max 2048 characters)'')"
  using assms
  by (auto simp: validate_url_def format_checks_def split: option.splits sum.splits)

lemma validate_api_request_str:
  assumes "d ''url'' = Some (PyStr url)"
    and "validate_url ip_address (sanitize_input (PyStr url)) = Inr (valid, message)"
  shows "validate_api_request ip_address (Dict d) =
     (if valid then Inr (True, [], [''url'' \<mapsto> sanitize_input (PyStr url)])
      else Inr (False, message, Map.empty))"
  using assms by (simp add: validate_api_request_def Let_def)

text \<open>
  Claim C7, as amended. The validator alone rejects every string of more than 2048
  characters with \<open>URL too long (max 2048 characters)\<close>. In \<open>validate_api_request\<close>
  the sanitizer runs first and cuts a string URL down to at most 2048 characters, so
  there the length rule never fires on a string URL: the request is judged on the
  shortened string, and it is never rejected for its length.
\<close>

theorem C7_length_rule_and_pipeline:
  "(length url > 2048 \<longrightarrow>
      validate_url ip_address url = Inr (False, ''URL too long (max 2048 characters)'')) \<and>
   length (sanitize_input (PyStr url)) \<le> 2048 \<and>
   validate_url ip_address (sanitize_input (PyStr url)) \<noteq>
     Inr (False, ''URL too long (max 2048 characters)'') \<and>
   (d ''url'' = Some (PyStr url) \<longrightarrow>
      validate_api_request ip_address (Dict d) \<noteq>
        Inr (False, ''URL too long (max 2048 characters)'', Map.empty))"
proof -
  have a: "length url > 2048 \<longrightarrow>
      validate_url ip_address url = Inr (False, ''URL too long (max 2048 characters)'')"
    using validate_url_too_long by blast
  have b: "length (sanitize_input (PyStr url)) \<le> 2048" by (rule sanitize_length)
  have c: "validate_url ip_address (sanitize_input (PyStr url)) \<noteq>
     Inr (False, ''URL too long (max 2048 characters)'')"
    using b by (rule validate_url_not_too_long)
  have e: "d ''url'' = Some (PyStr url) \<longrightarrow>
      validate_api_request ip_address (Dict d) \<noteq>
        Inr (False, ''URL too long (max 2048 characters)'', Map.empty)"
    using c validate_url_returns [of ip_address "sanitize_input (PyStr url)"]
    by (auto simp: validate_api_request_def Let_def split: if_splits)
  from a b c e show ?thesis by blast
qed

theorem C7_witness:
  "\<forall>ip_address.
     length (''http://a.com/'' @ replicate 2036 (CHR ''a'')) > 2048 \<and>
     validate_url ip_address (''http://a.com/'' @ replicate 2036 (CHR ''a'')) =
       Inr (False, ''URL too long (max 2048 characters)'') \<and>
     validate_api_request ip_address
         (Dict [''url'' \<mapsto> PyStr (''http://a.com/'' @ replicate 2036 (CHR ''a''))]) \<noteq>
       Inr (False, ''URL too long (max 2048 characters)'', Map.empty)"
proof
  fix ip_address
  let ?u = "''http://a.com/'' @ replicate 2036 (CHR ''a'')"
  note c7 = C7_length_rule_and_pipeline [of ?u ip_address "[''url'' \<mapsto> PyStr ?u]"]
  have l: "length ?u > 2048" by simp
  with c7 have v: "validate_url ip_address ?u =
       Inr (False, ''URL too long (max 2048 characters)'')" by blast
  have "[''url'' \<mapsto> PyStr ?u] ''url'' = Some (PyStr ?u)" by simp
  with c7 have p: "validate_api_request ip_address (Dict [''url'' \<mapsto> PyStr ?u]) \<noteq>
       Inr (False, ''URL too long (max 2048 characters)'', Map.empty)" by blast
  from l v p
  show "length ?u > 2048 \<and>
     validate_url ip_address ?u = Inr (False, ''URL too long (max 2048 characters)'') \<and>
     validate_api_request ip_address (Dict [''url'' \<mapsto> PyStr ?u]) \<noteq>
       Inr (False, ''URL too long (max 2048 characters)'', Map.empty)"
    by blast
qed

theorem C7_counterexample:
  "\<not> (\<forall>ip_address url. length url > 2048 \<longrightarrow>
        (\<exists>reason. validate_api_request ip_address (Dict [''url'' \<mapsto> PyStr url]) =
           Inr (False, reason, Map.empty)))"
proof
  assume a: "\<forall>ip_address url. length url > 2048 \<longrightarrow>
        (\<exists>reason. validate_api_request ip_address (Dict [''url'' \<mapsto> PyStr url]) =
           Inr (False, reason, Map.empty))"
  let ?u = "''http://a.com/'' @ replicate 2036 (CHR ''a'')"
  let ?t = "''http://a.com/'' @ replicate 2035 (CHR ''a'')"
  let ?ip = "\<lambda>h. Inr IPv6Address"
  have "length ?u > 2048" by simp
  with a obtain reason where
    r: "validate_api_request ?ip (Dict [''url'' \<mapsto> PyStr ?u]) = Inr (False, reason, Map.empty)"
    by blast
  have s: "sanitize_input (PyStr ?u) = ?t"
    using padded_url_sanitized [of 2036] by simp
  have v: "validate_url ?ip ?t = Inr (True, [])" by (rule padded_url_valid) simp
  have v': "validate_url ?ip (sanitize_input (PyStr ?u)) = Inr (True, [])"
    by (simp only: s v)
  have d: "[''url'' \<mapsto> PyStr ?u] ''url'' = Some (PyStr ?u)" by simp
  from validate_api_request_str [of "[''url'' \<mapsto> PyStr ?u]" ?u ?ip True "[]", OF d v'] r
  show False by simp
qed

section \<open>The model scorer\<close>

lemma py_int_nonneg: "0 \<le> x \<Longrightarrow> py_int x = \<lfloor>x\<rfloor>"
  by (simp add: py_int_def)

lemma py_round_floor: "\<lfloor>x\<rfloor> \<le> py_round x \<and> py_round x \<le> \<lfloor>x\<rfloor> + 1"
  by (simp add: py_round_def Let_def)

lemma get_reasons_returns: "length features = 7 \<Longrightarrow> \<exists>reasons. get_reasons features = Inr reasons"
  by (simp add: get_reasons_def features7_def Let_def)

lemma ilog2_lower:
  assumes "0 < x"
  shows "power_int 2 (ilog2 x) \<le> x"
proof -
  obtain p q where pq: "quotient_of x = (p, q)" by (cases "quotient_of x")
  then have q: "0 < q" by (rule quotient_of_denom_pos)
  from pq have x: "x = of_int p / of_int q" by (rule quotient_of_div)
  with assms q have p: "0 < p" by (simp add: zero_less_divide_iff)
  let ?d = "bitlen p - bitlen q"
  show ?thesis
  proof (cases "power_int 2 ?d \<le> x")
    case True
    then show ?thesis by (simp add: ilog2_def pq)
  next
    case False
    then have e: "ilog2 x = ?d - 1" by (simp add: ilog2_def pq)
    from bitlen_bounds [OF p] have lp: "2 ^ nat (bitlen p - 1) \<le> p" by simp
    from bitlen_bounds [OF q] have uq: "q < 2 ^ nat (bitlen q)" by simp
    have bp: "1 \<le> bitlen p" using p by (auto simp: bitlen_alt_def)
    have bq: "0 \<le> bitlen q" by (rule bitlen_nonneg)
    have "(of_int (2 ^ nat (bitlen p - 1)) :: rat) \<le> of_int p" using lp by (simp only: of_int_le_iff)
    then have lp': "(2::rat) ^ nat (bitlen p - 1) \<le> of_int p" by simp
    have "(of_int q :: rat) < of_int (2 ^ nat (bitlen q))" using uq by (simp only: of_int_less_iff)
    then have uq': "(of_int q :: rat) < 2 ^ nat (bitlen q)" by simp
    have "power_int (2::rat) (?d - 1) = power_int 2 (bitlen p - 1) / power_int 2 (bitlen q)"
      using power_int_diff [of "2::rat" "bitlen p - 1" "bitlen q"] by (simp add: algebra_simps)
    also have "\<dots> = 2 ^ nat (bitlen p - 1) / 2 ^ nat (bitlen q)"
      using bp bq by (simp add: power_int_def)
    also have "\<dots> \<le> of_int p / 2 ^ nat (bitlen q)"
      using lp' by (simp add: divide_right_mono)
    also have "\<dots> \<le> of_int p / of_int q"
      using uq' p q by (intro divide_left_mono) (simp_all)
    finally have "power_int (2::rat) (?d - 1) \<le> of_int p / of_int q" .
    then show ?thesis unfolding e using x by simp
  qed
qed

lemma ilog2_upper: 
  assumes "0 < x" and "x < 2 ^ n"
  shows "ilog2 x < int n"
proof (rule ccontr)
  assume "\<not> ilog2 x < int n"
  then have "int n \<le> ilog2 x" by simp
  then have "power_int (2::rat) (int n) \<le> power_int 2 (ilog2 x)"
    by (intro power_int_increasing) simp_all
  with ilog2_lower [OF assms(1)] have "(2::rat) ^ n \<le> x" by simp
  with assms(2) show False by simp
qed

lemma py_round_nonneg: "0 \<le> y \<Longrightarrow> 0 \<le> py_round y"
  by (simp add: py_round_def Let_def)

lemma py_round_le_int:
  assumes "y \<le> of_int n"
  shows "py_round y \<le> n"
proof -
  from assms have f: "\<lfloor>y\<rfloor> \<le> n" by (simp add: floor_le_iff)
  show ?thesis
  proof (cases "\<lfloor>y\<rfloor> = n")
    case True
    with assms have "y - of_int \<lfloor>y\<rfloor> \<le> 0" by simp
    then show ?thesis using True by (simp add: py_round_def Let_def)
  next
    case False
    with f have "\<lfloor>y\<rfloor> + 1 \<le> n" by simp
    then show ?thesis using f by (simp add: py_round_def Let_def)
  qed
qed

lemma fl_nonneg:
  assumes "0 \<le> x"
  shows "0 \<le> fl x"
proof (cases "x = 0")
  case True
  then show ?thesis by (simp add: fl_def)
next
  case False
  let ?u = "power_int (2::rat) (max (ilog2 \<bar>x\<bar>) (- 1022) - 52)"
  have u: "0 < ?u" by simp
  with assms have "0 \<le> x / ?u" by simp
  then have "0 \<le> py_round (x / ?u)" by (rule py_round_nonneg)
  with u have "0 \<le> of_int (py_round (x / ?u)) * ?u" by simp
  then show ?thesis using False by (simp add: fl_def Let_def)
qed

lemma fl_le_int:
  assumes "0 \<le> x" and "x \<le> of_int b" and "b < 2 ^ 53"
  shows "fl x \<le> of_int b"
proof (cases "x = 0")
  case True
  with assms show ?thesis by (simp add: fl_def)
next
  case False
  with assms have pos: "0 < x" by simp
  let ?e = "max (ilog2 \<bar>x\<bar>) (- 1022)"
  let ?u = "power_int (2::rat) (?e - 52)"
  have "x < 2 ^ 53"
  proof -
    have "(of_int b :: rat) < of_int (2 ^ 53)" using assms(3) by (simp only: of_int_less_iff)
    with assms(2) show ?thesis by simp
  qed
  with pos have "ilog2 x < int 53" by (rule ilog2_upper)
  with pos have e: "?e - 52 \<le> 0" by simp
  have u: "0 < ?u" by simp
  have inv: "?u * 2 ^ nat (52 - ?e) = 1"
  proof -
    have "(2::rat) ^ nat (52 - ?e) = power_int 2 (52 - ?e)" using e by (simp add: power_int_def)
    moreover have "?u * power_int 2 (52 - ?e) = power_int 2 ((?e - 52) + (52 - ?e))"
      by (subst power_int_add) simp_all
    moreover have "(?e - 52) + (52 - ?e) = 0" by simp
    ultimately show ?thesis by (simp only: power_int_0_right)
  qed
  from inv u have d: "x / ?u = x * 2 ^ nat (52 - ?e)"
    by (simp add: field_simps)
  have "x * 2 ^ nat (52 - ?e) \<le> of_int b * 2 ^ nat (52 - ?e)"
    using assms(2) by (simp add: mult_right_mono)
  then have "x / ?u \<le> of_int (b * 2 ^ nat (52 - ?e))" by (simp add: d)
  then have "py_round (x / ?u) \<le> b * 2 ^ nat (52 - ?e)" by (rule py_round_le_int)
  then have "(of_int (py_round (x / ?u)) :: rat) \<le> of_int (b * 2 ^ nat (52 - ?e))"
    by (simp only: of_int_le_iff)
  then have "of_int (py_round (x / ?u)) * ?u \<le> of_int (b * 2 ^ nat (52 - ?e)) * ?u"
    using u by (simp add: mult_right_mono)
  also have "\<dots> = of_int b * (?u * 2 ^ nat (52 - ?e))" by (simp add: mult_ac)
  also have "\<dots> = of_int b" by (simp only: inv mult_1_right)
  finally show ?thesis using False by (simp add: fl_def Let_def)
qed

lemma percent_in_range:
  assumes "0 \<le> c" and "c \<le> 1"
  shows "0 \<le> py_int (fmul c 100)" and "py_int (fmul c 100) \<le> 100"
proof -
  from assms have x: "0 \<le> c * 100" "c * 100 \<le> of_int 100" by simp_all
  have lo: "0 \<le> fmul c 100" unfolding fmul_def using x(1) by (rule fl_nonneg)
  have hi: "fmul c 100 \<le> of_int 100" unfolding fmul_def using x by (rule fl_le_int) simp
  from lo show "0 \<le> py_int (fmul c 100)" by (simp add: py_int_def)
  from hi have "\<lfloor>fmul c 100\<rfloor> \<le> 100" by (simp add: floor_le_iff)
  with lo show "py_int (fmul c 100) \<le> 100" by (simp add: py_int_def)
qed

lemma complement_in_range:
  assumes "0 \<le> c" and "c \<le> 1"
  shows "0 \<le> fsub 1 c" and "fsub 1 c \<le> 1"
proof -
  from assms have x: "0 \<le> 1 - c" "1 - c \<le> of_int 1" by simp_all
  show "0 \<le> fsub 1 c" unfolding fsub_def using x(1) by (rule fl_nonneg)
  have "fsub 1 c \<le> of_int 1" unfolding fsub_def using x by (rule fl_le_int) simp
  then show "fsub 1 c \<le> 1" by simp
qed

lemma double_examples:
  "py_int (fmul (799388933858263 / 1125899906842624) 100) = 71"
  "\<lfloor>(799388933858263 / 1125899906842624) * 100 :: rat\<rfloor> = 70"
  "np_round3 (799388933858263 / 1125899906842624) = 799388933858263 / 1125899906842624"
  "np_round3 (4625196817309499 / 9007199254740992) = 2314850208468435 / 4503599627370496"
  "fl (71 / 100) = 799388933858263 / 1125899906842624"
  "fl (5135 / 10000) = 4625196817309499 / 9007199254740992"
  "fl (514 / 1000) = 2314850208468435 / 4503599627370496"
  "py_int (fmul (97 / 128) 100) = 75"
  "py_round ((97 / 128) * 100) = 76"
  by code_simp+

text \<open>
  Claim C4, as amended. With a loaded classifier, a predicted label 1 gives the status
  Phishing, the confidence is the probability of the phishing class and the score is
  \<open>int(confidence * 100)\<close>; any other label gives Safe, the probability of the
  legitimate class and \<open>int((1 - confidence) * 100)\<close>. The products and the difference
  are those of double arithmetic, and \<open>int\<close> drops the fraction: the score is the
  rounded product or one less, and for a probability it lies in 0..100. The response
  carries \<open>round(confidence, 3)\<close> as numpy computes it. For the double nearest 0.71
  the score is 71, although the exact product is below 71; for the double nearest
  0.5135 the rounded confidence is the double nearest 0.514.
\<close>

theorem C4_model_scorer_truncates:
  "(url \<noteq> [] \<and> extract_features ip_address url = Inr features \<longrightarrow>
      (\<exists>r. predict ip_address (Some model) url = Ok r \<and>
           p_model_used r = ''Random Forest'' \<and>
           (clf_predict model features = 1 \<longrightarrow>
              p_prediction r = ''Phishing'' \<and>
              p_confidence r = np_round3 (snd (clf_predict_proba model features)) \<and>
              p_phishing_score r =
                py_int (fmul (snd (clf_predict_proba model features)) 100)) \<and>
           (clf_predict model features \<noteq> 1 \<longrightarrow>
              p_prediction r = ''Safe'' \<and>
              p_confidence r = np_round3 (fst (clf_predict_proba model features)) \<and>
              p_phishing_score r =
                py_int (fmul (fsub 1 (fst (clf_predict_proba model features))) 100)))) \<and>
   (0 \<le> y \<longrightarrow> py_int y = \<lfloor>y\<rfloor> \<and> py_int y \<le> py_round y \<and> py_round y \<le> py_int y + 1) \<and>
   (0 \<le> c \<and> c \<le> 1 \<longrightarrow>
      0 \<le> py_int (fmul c 100) \<and> py_int (fmul c 100) \<le> 100 \<and>
      0 \<le> py_int (fmul (fsub 1 c) 100) \<and> py_int (fmul (fsub 1 c) 100) \<le> 100) \<and>
   fl (71 / 100) = 799388933858263 / 1125899906842624 \<and>
   py_int (fmul (799388933858263 / 1125899906842624) 100) = 71 \<and>
   fl (5135 / 10000) = 4625196817309499 / 9007199254740992 \<and>
   fl (514 / 1000) = 2314850208468435 / 4503599627370496 \<and>
   np_round3 (4625196817309499 / 9007199254740992) = 2314850208468435 / 4503599627370496"
proof -
  have resp: "url \<noteq> [] \<and> extract_features ip_address url = Inr features \<longrightarrow>
      (\<exists>r. predict ip_address (Some model) url = Ok r \<and>
           p_model_used r = ''Random Forest'' \<and>
           (clf_predict model features = 1 \<longrightarrow>
              p_prediction r = ''Phishing'' \<and>
              p_confidence r = np_round3 (snd (clf_predict_proba model features)) \<and>
              p_phishing_score r =
                py_int (fmul (snd (clf_predict_proba model features)) 100)) \<and>
           (clf_predict model features \<noteq> 1 \<longrightarrow>
              p_prediction r = ''Safe'' \<and>
              p_confidence r = np_round3 (fst (clf_predict_proba model features)) \<and>
              p_phishing_score r =
                py_int (fmul (fsub 1 (fst (clf_predict_proba model features))) 100)))"
  proof
    assume a: "url \<noteq> [] \<and> extract_features ip_address url = Inr features"
    then have "length features = 7" using extract_features_length by blast
    then obtain reasons where g: "get_reasons features = Inr reasons"
      using get_reasons_returns by blast
    from a g show "\<exists>r. predict ip_address (Some model) url = Ok r \<and>
           p_model_used r = ''Random Forest'' \<and>
           (clf_predict model features = 1 \<longrightarrow>
              p_prediction r = ''Phishing'' \<and>
              p_confidence r = np_round3 (snd (clf_predict_proba model features)) \<and>
              p_phishing_score r =
                py_int (fmul (snd (clf_predict_proba model features)) 100)) \<and>
           (clf_predict model features \<noteq> 1 \<longrightarrow>
              p_prediction r = ''Safe'' \<and>
              p_confidence r = np_round3 (fst (clf_predict_proba model features)) \<and>
              p_phishing_score r =
                py_int (fmul (fsub 1 (fst (clf_predict_proba model features))) 100))"
      by (simp add: predict_def predict_body_def model_branch_def Let_def)
  qed
  have trunc: "0 \<le> y \<longrightarrow>
      py_int y = \<lfloor>y\<rfloor> \<and> py_int y \<le> py_round y \<and> py_round y \<le> py_int y + 1"
    using py_round_floor [of y] by (simp add: py_int_nonneg)
  have range: "0 \<le> c \<and> c \<le> 1 \<longrightarrow>
      0 \<le> py_int (fmul c 100) \<and> py_int (fmul c 100) \<le> 100 \<and>
      0 \<le> py_int (fmul (fsub 1 c) 100) \<and> py_int (fmul (fsub 1 c) 100) \<le> 100"
  proof
    assume c: "0 \<le> c \<and> c \<le> 1"
    then have k: "0 \<le> fsub 1 c" "fsub 1 c \<le> 1" using complement_in_range by blast+
    from c percent_in_range [of c] percent_in_range [OF k]
    show "0 \<le> py_int (fmul c 100) \<and> py_int (fmul c 100) \<le> 100 \<and>
      0 \<le> py_int (fmul (fsub 1 c) 100) \<and> py_int (fmul (fsub 1 c) 100) \<le> 100"
      by blast
  qed
  from resp trunc range double_examples(5) double_examples(1) double_examples(6)
    double_examples(7) double_examples(4)
  show ?thesis by blast
qed

theorem C4_witness:
  "\<forall>ip_address.
     (0::rat) \<le> 799388933858263 / 1125899906842624 \<and>
     (799388933858263 / 1125899906842624 :: rat) \<le> 1 \<and>
     extract_features ip_address ''https://www.google.com'' = Inr [22, 0, 0, 0, 1, 1, 0] \<and>
     (\<exists>r. predict ip_address
            (Some \<lparr>clf_predict = (\<lambda>features. 1),
                   clf_predict_proba = (\<lambda>features.
                     (5224175567749775 / 18014398509481984,
                      799388933858263 / 1125899906842624))\<rparr>)
            ''https://www.google.com'' = Ok r \<and>
          p_model_used r = ''Random Forest'' \<and>
          p_prediction r = ''Phishing'' \<and>
          p_confidence r = 799388933858263 / 1125899906842624 \<and>
          p_phishing_score r = 71) \<and>
     py_int (fmul (799388933858263 / 1125899906842624) 100) \<le> 100"
proof
  fix ip_address
  let ?d = "799388933858263 / 1125899906842624 :: rat"
  let ?m = "\<lparr>clf_predict = (\<lambda>features. 1),
             clf_predict_proba = (\<lambda>features. (5224175567749775 / 18014398509481984, ?d))\<rparr>"
  let ?f = "[22, 0, 0, 0, 1, 1, 0] :: int list"
  note c4 = C4_model_scorer_truncates [of "''https://www.google.com''" ip_address ?f ?m
      "fmul ?d 100" ?d]
  have f: "extract_features ip_address ''https://www.google.com'' = Inr ?f"
    by (rule url_google_features)
  have b: "(0::rat) \<le> ?d" "?d \<le> 1" by simp_all
  from c4 f obtain r where
    p: "predict ip_address (Some ?m) ''https://www.google.com'' = Ok r" and
    u: "p_model_used r = ''Random Forest''" and
    s: "p_prediction r = ''Phishing''" and
    k: "p_confidence r = np_round3 ?d" and
    n: "p_phishing_score r = py_int (fmul ?d 100)"
    by auto
  from k have k': "p_confidence r = ?d" by (simp only: double_examples(3))
  from n have n': "p_phishing_score r = 71" by (simp only: double_examples(1))
  from c4 b have h: "py_int (fmul ?d 100) \<le> 100" by blast
  from p u s k' n' have "\<exists>r. predict ip_address (Some ?m) ''https://www.google.com'' = Ok r \<and>
          p_model_used r = ''Random Forest'' \<and>
          p_prediction r = ''Phishing'' \<and>
          p_confidence r = ?d \<and>
          p_phishing_score r = 71" by blast
  with b f h
  show "(0::rat) \<le> ?d \<and> ?d \<le> 1 \<and>
     extract_features ip_address ''https://www.google.com'' = Inr [22, 0, 0, 0, 1, 1, 0] \<and>
     (\<exists>r. predict ip_address (Some ?m) ''https://www.google.com'' = Ok r \<and>
          p_model_used r = ''Random Forest'' \<and>
          p_prediction r = ''Phishing'' \<and>
          p_confidence r = ?d \<and>
          p_phishing_score r = 71) \<and>
     py_int (fmul ?d 100) \<le> 100"
    by blast
qed

theorem C4_counterexample:
  "\<not> (\<forall>model features. clf_predict model features = 1 \<longrightarrow>
        snd (snd (model_branch model features)) =
          spec_model_score (snd (clf_predict_proba model features)))"
proof
  assume a: "\<forall>model features. clf_predict model features = 1 \<longrightarrow>
        snd (snd (model_branch model features)) =
          spec_model_score (snd (clf_predict_proba model features))"
  let ?m = "\<lparr>clf_predict = (\<lambda>features. 1),
             clf_predict_proba = (\<lambda>features. (31 / 128, 97 / 128))\<rparr>"
  have "clf_predict ?m [] = 1" by simp
  with a have "snd (snd (model_branch ?m [])) = spec_model_score (snd (clf_predict_proba ?m []))"
    by blast
  moreover have "snd (snd (model_branch ?m [])) = py_int (fmul (97 / 128) 100)"
    by (simp add: model_branch_def Let_def)
  moreover have "spec_model_score (snd (clf_predict_proba ?m [])) = py_round ((97 / 128) * 100)"
    by (simp only: spec_model_score_def classifier.simps snd_conv)
  ultimately have "py_int (fmul (97 / 128) 100) = py_round ((97 / 128) * 100)" by simp
  then show False by (simp only: double_examples(8) double_examples(9))
qed


end
